theory Spec2Isabelle
  imports Complex_Main
begin

section \<open>Errors and floating-point results\<close>

text \<open>
  Every \<^verbatim>\<open>raise\<close> of the source is a value of \<open>error\<close>. The source raises
  \<^verbatim>\<open>ValueError\<close> throughout and tells the cases apart by the message only, so each message
  is a constructor. Failures of Python built-ins and of the external libraries that the
  functions call are constructors too.
\<close>

datatype error =
    NotEquallySpaced string  \<comment> \<open>ValueError "Coordinate \{\} points are not equally spaced"\<close>
  | UnequalXYSpacing         \<comment> \<open>ValueError "Grid does not have equal spacing in x and y dimensions"\<close>
  | NonPositiveDistance      \<comment> \<open>ValueError "Please specify a positive distance in metres. ..."\<close>
  | ZeroCellExtent           \<comment> \<open>ValueError "Distance of \{\}m gives zero cell extent"\<close>
  | IntOfInfinity            \<comment> \<open>OverflowError of \<^verbatim>\<open>int(inf)\<close>\<close>
  | IntOfNaN                 \<comment> \<open>ValueError of \<^verbatim>\<open>int(nan)\<close>\<close>
  | UnitConversionError      \<comment> \<open>whatever the external \<^verbatim>\<open>convert_units\<close> raises\<close>
  | OnlyOneRadius            \<comment> \<open>ValueError "Only one of radius or grid_point_radius should be set"\<close>
  | LandMaskName string      \<comment> \<open>ValueError "Expected land_mask_cube to be called land_binary_mask, not \{\}"\<close>
  | SpatialMismatch          \<comment> \<open>ValueError "Supplied cube do not have the same spatial coordinates and land mask"\<close>
  | BooleanIndexMismatch     \<comment> \<open>IndexError of numpy: a boolean index of another shape than the array\<close>
  | NonIntegerSize           \<comment> \<open>a float where the filter size must be an integer\<close>
  | BroadcastError           \<comment> \<open>ValueError of numpy: operands of different shapes\<close>
  | CoordinateNotFound       \<comment> \<open>CoordinateNotFoundError of the cube library\<close>
  | StopIteration            \<comment> \<open>\<^verbatim>\<open>next\<close> of an iterator that yields nothing\<close>
  | MergeError               \<comment> \<open>ValueError of the cube library: nothing to merge or to concatenate\<close>
  | ConcatenateError         \<comment> \<open>ConcatenateError of the cube library: cubes that do not fit together\<close>
  | NeighbourhoodError       \<comment> \<open>whatever the neighbourhood primitive raises\<close>
  | CollapseError            \<comment> \<open>whatever the external slicing, reduction and merging raise\<close>

text \<open>
  Floating-point numbers are idealised: a finite float is a real number and arithmetic on
  finite floats is exact. The special values are kept: the mean of no differences is
  \<open>NaN\<close>, a positive distance divided by a zero spacing is \<open>+inf\<close>, and the data of a
  field may hold \<open>NaN\<close> and the infinities.
\<close>

datatype pyfloat = Fin real | PosInf | NegInf | NaN

section \<open>Grid geometry (\<^verbatim>\<open>improver/utilities/spatial.py\<close>)\<close>

record coord =
  coord_name :: string
  points :: "real list"
  units :: string

text \<open>The two spatial axes that \<^verbatim>\<open>cube.coord(axis=...)\<close> is asked for.\<close>

datatype axis = X | Y

record 'd cube =
  cube_name :: string
  xcoord :: coord
  ycoord :: coord
  data :: 'd

definition cube_coord :: "('d, 'm) cube_scheme \<Rightarrow> axis \<Rightarrow> coord" where
  "cube_coord c ax = (case ax of X \<Rightarrow> xcoord c | Y \<Rightarrow> ycoord c)"

text \<open>
  Unit conversion belongs to the external units library. It is a parameter \<open>conv\<close> of
  every function that converts: \<open>conv c u\<close> is the copy of the coordinate \<open>c\<close> after
  \<^verbatim>\<open>convert_units(u)\<close>, or \<open>None\<close> when the library raised.
\<close>

type_synonym convert_units = "coord \<Rightarrow> string \<Rightarrow> coord option"

text \<open>\<^verbatim>\<open>np.diff\<close> of a one-dimensional array: consecutive differences.\<close>

fun np_diff :: "real list \<Rightarrow> real list" where
  "np_diff (a # b # xs) = (b - a) # np_diff (b # xs)"
| "np_diff _ = []"

text \<open>\<^verbatim>\<open>np.mean\<close>: the mean of an empty array is \<open>NaN\<close> (with a warning).\<close>

definition np_mean :: "real list \<Rightarrow> pyfloat" where
  "np_mean xs = (if xs = [] then NaN else Fin (sum_list xs / real (length xs)))"

text \<open>
  \<^verbatim>\<open>np.allclose(a, b, rtol, atol)\<close> of an array \<open>a\<close> with a scalar \<open>b\<close>:
  every element has \<open>|a - b| \<le> atol + rtol * |b|\<close>. A comparison with \<open>NaN\<close> is false,
  and the conjunction over an empty array is true.
\<close>

definition np_isclose :: "real \<Rightarrow> pyfloat \<Rightarrow> real \<Rightarrow> real \<Rightarrow> bool" where
  "np_isclose a b rtol atol =
     (case b of Fin m \<Rightarrow> \<bar>a - m\<bar> \<le> atol + rtol * \<bar>m\<bar> | _ \<Rightarrow> False)"

definition np_allclose :: "real list \<Rightarrow> pyfloat \<Rightarrow> real \<Rightarrow> real \<Rightarrow> bool" where
  "np_allclose as b rtol atol = list_all (\<lambda>a. np_isclose a b rtol atol) as"

definition calculate_grid_spacing ::
  "convert_units \<Rightarrow> ('d, 'm) cube_scheme \<Rightarrow> string \<Rightarrow> axis \<Rightarrow> real \<Rightarrow> error + pyfloat" where
  "calculate_grid_spacing conv c u ax rtol =
     (case conv (cube_coord c ax) u of
        None \<Rightarrow> Inl UnitConversionError
      | Some co \<Rightarrow>
          (let diffs = map abs (np_diff (points co));
               diffs_mean = np_mean diffs
           in if \<not> np_allclose diffs diffs_mean rtol 0
              then Inl (NotEquallySpaced (coord_name co))
              else Inr diffs_mean))"

text \<open>The default \<^verbatim>\<open>rtol=1.0e-5\<close> of \<^verbatim>\<open>calculate_grid_spacing\<close>.\<close>

definition default_rtol :: real where
  "default_rtol = 1 / 100000"

text \<open>
  \<^verbatim>\<open>np.isclose(x, y)\<close> of two scalars with the defaults \<^verbatim>\<open>rtol=1e-05, atol=1e-08\<close>;
  false when either is \<open>NaN\<close>, true for two equal infinities.
\<close>

definition isclose_default :: "pyfloat \<Rightarrow> pyfloat \<Rightarrow> bool" where
  "isclose_default x y =
     (case (x, y) of
        (Fin a, Fin b) \<Rightarrow> \<bar>a - b\<bar> \<le> 1 / 100000000 + (1 / 100000) * \<bar>b\<bar>
      | (PosInf, PosInf) \<Rightarrow> True
      | (NegInf, NegInf) \<Rightarrow> True
      | _ \<Rightarrow> False)"

definition check_if_grid_is_equal_area ::
  "convert_units \<Rightarrow> ('d, 'm) cube_scheme \<Rightarrow> bool \<Rightarrow> error + unit" where
  "check_if_grid_is_equal_area conv c require_equal_xy_spacing =
     (case calculate_grid_spacing conv c ''metres'' X default_rtol of
        Inl e \<Rightarrow> Inl e
      | Inr x_diff \<Rightarrow>
          (case calculate_grid_spacing conv c ''metres'' Y default_rtol of
             Inl e \<Rightarrow> Inl e
           | Inr y_diff \<Rightarrow>
               if require_equal_xy_spacing \<and> \<not> isclose_default x_diff y_diff
               then Inl UnequalXYSpacing
               else Inr ()))"

text \<open>
  \<^verbatim>\<open>distance / abs(grid_spacing_metres)\<close> for a positive finite distance: a \<open>NaN\<close> spacing
  gives \<open>NaN\<close>, a zero spacing gives \<open>+inf\<close> (numpy scalars warn and do not raise).
\<close>

definition divide_by_abs :: "real \<Rightarrow> pyfloat \<Rightarrow> pyfloat" where
  "divide_by_abs d s =
     (case s of
        Fin r \<Rightarrow> (if r = 0 then (if d = 0 then NaN else PosInf) else Fin (d / \<bar>r\<bar>))
      | PosInf \<Rightarrow> Fin 0
      | NegInf \<Rightarrow> Fin 0
      | NaN \<Rightarrow> NaN)"

text \<open>Python's \<^verbatim>\<open>int(x)\<close> of a float: truncation toward zero; it raises on \<open>inf\<close> and \<open>NaN\<close>.\<close>

definition trunc_toward_zero :: "real \<Rightarrow> int" where
  "trunc_toward_zero r = (if 0 \<le> r then \<lfloor>r\<rfloor> else \<lceil>r\<rceil>)"

definition py_int :: "pyfloat \<Rightarrow> error + int" where
  "py_int x =
     (case x of
        Fin r \<Rightarrow> Inr (trunc_toward_zero r)
      | PosInf \<Rightarrow> Inl IntOfInfinity
      | NegInf \<Rightarrow> Inl IntOfInfinity
      | NaN \<Rightarrow> Inl IntOfNaN)"

text \<open>The function returns an \<^verbatim>\<open>int\<close> when \<^verbatim>\<open>return_int\<close> is true and a float otherwise.\<close>

datatype grid_cells = IntCells int | FloatCells pyfloat

definition distance_to_number_of_grid_cells ::
  "convert_units \<Rightarrow> ('d, 'm) cube_scheme \<Rightarrow> real \<Rightarrow> axis \<Rightarrow> bool \<Rightarrow> error + grid_cells" where
  "distance_to_number_of_grid_cells conv c distance ax return_int =
     (if distance \<le> 0 then Inl NonPositiveDistance
      else
        (case calculate_grid_spacing conv c ''metres'' ax default_rtol of
           Inl e \<Rightarrow> Inl e
         | Inr grid_spacing_metres \<Rightarrow>
             (let grid_cells = divide_by_abs distance grid_spacing_metres
              in if return_int
                 then (case py_int grid_cells of
                         Inl e \<Rightarrow> Inl e
                       | Inr n \<Rightarrow> if n = 0 then Inl ZeroCellExtent else Inr (IntCells n))
                 else Inr (FloatCells grid_cells))))"

text \<open>\<^verbatim>\<open>spacing * grid_points\<close> with an integer number of grid points.\<close>

definition times_int :: "pyfloat \<Rightarrow> int \<Rightarrow> pyfloat" where
  "times_int s n =
     (case s of
        Fin r \<Rightarrow> Fin (r * real_of_int n)
      | PosInf \<Rightarrow> (if n = 0 then NaN else if 0 < n then PosInf else NegInf)
      | NegInf \<Rightarrow> (if n = 0 then NaN else if 0 < n then NegInf else PosInf)
      | NaN \<Rightarrow> NaN)"

definition number_of_grid_cells_to_distance ::
  "convert_units \<Rightarrow> ('d, 'm) cube_scheme \<Rightarrow> int \<Rightarrow> error + pyfloat" where
  "number_of_grid_cells_to_distance conv c grid_points =
     (case check_if_grid_is_equal_area conv c True of
        Inl e \<Rightarrow> Inl e
      | Inr _ \<Rightarrow>
          (case calculate_grid_spacing conv c ''metres'' X default_rtol of
             Inl e \<Rightarrow> Inl e
           | Inr spacing \<Rightarrow> Inr (times_int spacing grid_points)))"

section \<open>Occurrence within vicinity (\<^verbatim>\<open>improver/utilities/spatial.py\<close>)\<close>

subsection \<open>Arrays\<close>

text \<open>
  A two-dimensional array is a list of rows. A masked array pairs every value with its
  mask flag (\<open>True\<close>: masked); a plain \<^verbatim>\<open>ndarray\<close> is a masked array with every flag
  \<open>False\<close>. Element-wise numpy operations are maps over the cells.
\<close>

type_synonym 'a array2d = "'a list list"

type_synonym 'a masked2d = "('a \<times> bool) list list"

definition shape :: "'a array2d \<Rightarrow> nat list" where
  "shape a = map length a"

definition map2d :: "('a \<Rightarrow> 'b) \<Rightarrow> 'a array2d \<Rightarrow> 'b array2d" where
  "map2d f a = map (map f) a"

definition zip2d :: "'a array2d \<Rightarrow> 'b array2d \<Rightarrow> ('a \<times> 'b) array2d" where
  "zip2d a b = map2 zip a b"

text \<open>\<^verbatim>\<open>np.ma.is_masked(a)\<close>: some cell of the array is masked.\<close>

definition is_masked :: "'a masked2d \<Rightarrow> bool" where
  "is_masked a = list_ex (list_ex snd) a"

text \<open>\<^verbatim>\<open>a[cond] = v\<close> on a copy of \<open>a\<close>, for a boolean array \<open>cond\<close> of the shape of \<open>a\<close>.\<close>

definition set_where :: "'a array2d \<Rightarrow> bool array2d \<Rightarrow> 'a \<Rightarrow> 'a array2d" where
  "set_where a cond v = map2d (\<lambda>(x, c). if c then v else x) (zip2d a cond)"

text \<open>\<^verbatim>\<open>np.where(cond, x, y)\<close> for three arrays of one shape.\<close>

definition np_where :: "bool array2d \<Rightarrow> 'a array2d \<Rightarrow> 'a array2d \<Rightarrow> 'a array2d" where
  "np_where cond x y = map2d (\<lambda>(c, p, q). if c then p else q) (zip2d cond (zip2d x y))"

text \<open>
  \<^verbatim>\<open>np.empty_like(a)\<close>: an array of the shape of \<open>a\<close> whose contents are whatever the
  memory held; \<open>junk i j\<close> stands for the content found at cell \<open>(i, j)\<close>.
\<close>

definition np_empty_like :: "(nat \<Rightarrow> nat \<Rightarrow> 'a) \<Rightarrow> 'b array2d \<Rightarrow> 'a array2d" where
  "np_empty_like junk a = map (\<lambda>i. map (\<lambda>j. junk i j) [0..<length (a ! i)]) [0..<length a]"

text \<open>
  The indices of an axis of length \<open>n\<close> from \<open>before\<close> places before index \<open>i\<close> to
  \<open>after\<close> places after it (the subtraction on \<open>nat\<close> stops at the first index).
\<close>

definition window :: "nat \<Rightarrow> nat \<Rightarrow> nat \<Rightarrow> nat \<Rightarrow> nat list" where
  "window n before after i = [i - before ..< min n (Suc (i + after))]"

text \<open>
  \<^verbatim>\<open>scipy.ndimage.maximum_filter(a, size=sz)\<close>, an external primitive, on a
  two-dimensional array with the default origin and border mode. It filters along the
  axes whose size is above 1 and, when there is none, returns a copy of its input: so a
  size of 1 or less, negative sizes included, gives the input back. For a larger size
  every cell becomes the maximum over the square that reaches \<open>sz div 2\<close> cells before
  it and \<open>sz - sz div 2 - 1\<close> cells after it along each axis, which for the odd size
  \<open>2 * r + 1\<close> is \<open>r\<close> cells either way. With the default border mode (\<^verbatim>\<open>reflect\<close>) the
  cells mirrored in from beyond an edge are cells of the square that lie inside the
  array, so the maximum is that over the part of the square inside the array.
\<close>

definition maximum_filter :: "('a::linorder) array2d \<Rightarrow> int \<Rightarrow> 'a array2d" where
  "maximum_filter a sz =
     (if sz \<le> 1 then a
      else
        (let before = nat sz div 2;
             after = nat sz - before - 1
         in map (\<lambda>i. map (\<lambda>j. Max (set (concat (map (\<lambda>k. map (\<lambda>l. a ! k ! l)
                                                        (window (length (a ! i)) before after j))
                                              (window (length a) before after i)))))
                        [0..<length (a ! i)])
              [0..<length a]))"

subsection \<open>The plugin\<close>

record vicinity_plugin =
  radius :: "real option"
  grid_point_radius :: "int option"
  land_mask_cube :: "real array2d cube option"

text \<open>\<^verbatim>\<open>OccurrenceWithinVicinity.__init__\<close>.\<close>

definition OccurrenceWithinVicinity_init ::
  "real option \<Rightarrow> int option \<Rightarrow> real array2d cube option \<Rightarrow> error + vicinity_plugin" where
  "OccurrenceWithinVicinity_init r g lmc =
     (if r \<noteq> None \<and> g \<noteq> None then Inl OnlyOneRadius
      else
        (case lmc of
           Some c \<Rightarrow>
             if cube_name c \<noteq> ''land_binary_mask'' then Inl (LandMaskName (cube_name c))
             else Inr \<lparr>radius = r, grid_point_radius = g, land_mask_cube = lmc\<rparr>
         | None \<Rightarrow> Inr \<lparr>radius = r, grid_point_radius = g, land_mask_cube = lmc\<rparr>))"

text \<open>
  \<^verbatim>\<open>self.land_mask\<close>: set once by \<^verbatim>\<open>__init__\<close> to
  \<^verbatim>\<open>np.where(land_mask_cube.data >= 0.5, True, False)\<close>, or to \<^verbatim>\<open>None\<close> without a
  land mask cube, and never assigned again; it is computed here where it is read.
\<close>

definition land_mask :: "vicinity_plugin \<Rightarrow> bool array2d option" where
  "land_mask self = map_option (\<lambda>c. map2d (\<lambda>v. 1 / 2 \<le> v) (data c)) (land_mask_cube self)"

text \<open>
  The first statement of \<^verbatim>\<open>maximum_within_vicinity\<close>: the radius in grid points. A radius
  of \<open>0.0\<close> is falsy in Python, as \<^verbatim>\<open>None\<close> is. The conversion is asked for an integer,
  so the float branch is never taken.
\<close>

definition resolve_grid_point_radius ::
  "convert_units \<Rightarrow> vicinity_plugin \<Rightarrow> ('d, 'm) cube_scheme \<Rightarrow> error + int" where
  "resolve_grid_point_radius conv self c =
     (if radius self \<noteq> None \<and> radius self \<noteq> Some 0
      then (case distance_to_number_of_grid_cells conv c (the (radius self)) X True of
              Inl e \<Rightarrow> Inl e
            | Inr (IntCells n) \<Rightarrow> Inr n
            | Inr (FloatCells _) \<Rightarrow> Inl NonIntegerSize)
      else (case grid_point_radius self of Some g \<Rightarrow> Inr g | None \<Rightarrow> Inr 0))"

text \<open>
  One turn of the loop \<^verbatim>\<open>for match in (True, False)\<close>: the cells of the other category
  are set to the sentinel in a copy, the copy is filtered, and the cells of the category
  take the filtered values. A raised error ends the loop.
\<close>

definition vicinity_pass ::
  "bool array2d \<Rightarrow> 'a \<Rightarrow> 'a array2d \<Rightarrow> int \<Rightarrow> bool
     \<Rightarrow> error + ('a::{linorder,uminus}) array2d \<Rightarrow> error + 'a array2d" where
  "vicinity_pass lm cube_fill_value unmasked_cube_data grid_points match acc =
     (case acc of
        Inl e \<Rightarrow> Inl e
      | Inr max_data \<Rightarrow>
          if shape lm \<noteq> shape unmasked_cube_data then Inl BooleanIndexMismatch
          else
            (let matched_data =
                   set_where unmasked_cube_data (map2d (\<lambda>l. l \<noteq> match) lm) (- cube_fill_value);
                 matched_max_data = maximum_filter matched_data grid_points
             in Inr (np_where (map2d (\<lambda>l. l = match) lm) matched_max_data max_data)))"

text \<open>
  \<^verbatim>\<open>maximum_within_vicinity\<close> on a two-dimensional slice. \<open>cube_fill_value\<close> is the entry
  of the external table \<^verbatim>\<open>netCDF4.default_fillvals\<close> for the data type of the cube, a
  parameter here. All writes of the source go to copies (\<^verbatim>\<open>cube.copy()\<close>,
  \<^verbatim>\<open>cube.data.copy()\<close>), which are the local values below; the result is the copy
  \<^verbatim>\<open>max_cube\<close>.
\<close>

definition maximum_within_vicinity ::
  "convert_units \<Rightarrow> vicinity_plugin \<Rightarrow> 'a \<Rightarrow> (nat \<Rightarrow> nat \<Rightarrow> 'a)
     \<Rightarrow> ('a::{linorder,uminus}) masked2d cube \<Rightarrow> error + 'a masked2d cube" where
  "maximum_within_vicinity conv self cube_fill_value junk c =
     (case resolve_grid_point_radius conv self c of
        Inl e \<Rightarrow> Inl e
      | Inr grid_point_radius' \<Rightarrow>
          (let grid_points = 2 * grid_point_radius' + 1;
               unmasked_cube_data =
                 (if is_masked (data c)
                  then map2d (\<lambda>(v, m). if m then - cube_fill_value else v) (data c)
                  else map2d fst (data c));
               max_data =
                 (case land_mask self of
                    Some lm \<Rightarrow>
                      fold (vicinity_pass lm cube_fill_value unmasked_cube_data grid_points)
                        [True, False] (Inr (np_empty_like junk (data c)))
                  | None \<Rightarrow> Inr (maximum_filter unmasked_cube_data grid_points))
           in case max_data of
                Inl e \<Rightarrow> Inl e
              | Inr md \<Rightarrow>
                  Inr (c\<lparr>data :=
                         (if is_masked (data c)
                          then map2d (\<lambda>((v, m), x). (if m then v else x, m)) (zip2d (data c) md)
                          else map2d (\<lambda>x. (x, False)) md)\<rparr>)))"

text \<open>
  The cells of a \<open>ny\<close> by \<open>nx\<close> array that lie in the square of radius \<open>r\<close> around the
  cell \<open>(i, j)\<close>: the window of the cell.
\<close>

definition vicinity :: "nat \<Rightarrow> nat \<Rightarrow> nat \<Rightarrow> nat \<Rightarrow> nat \<Rightarrow> (nat \<times> nat) set" where
  "vicinity ny nx r i j =
     {(k, l). k < ny \<and> l < nx \<and> i \<le> k + r \<and> k \<le> i + r \<and> j \<le> l + r \<and> l \<le> j + r}"

text \<open>
  What the cell \<open>(k, l)\<close> contributes to the window of the cell \<open>(i, j)\<close> in
  \<^verbatim>\<open>maximum_within_vicinity\<close>: its value when it is not masked and, under a land mask,
  of the category of \<open>(i, j)\<close>; the sentinel \<open>- cube_fill_value\<close> otherwise.
\<close>

definition window_value ::
  "'a \<Rightarrow> bool array2d option \<Rightarrow> ('a::uminus) masked2d \<Rightarrow> nat \<Rightarrow> nat \<Rightarrow> nat \<times> nat \<Rightarrow> 'a" where
  "window_value cube_fill_value lmo d i j kl =
     (case kl of (k, l) \<Rightarrow>
        if snd (d ! k ! l) \<or> (case lmo of Some lm \<Rightarrow> lm ! k ! l \<noteq> lm ! i ! j | None \<Rightarrow> False)
        then - cube_fill_value
        else fst (d ! k ! l))"

subsection \<open>The vicinity maximum over a store of arrays\<close>

text \<open>
  Whether a transform changes the data of its input depends on which arrays the source
  writes to and which arrays are copies. Here the arrays are objects in a store: a list
  of arrays, an address being an index. \<open>alloc\<close> makes a new array object, as
  \<^verbatim>\<open>.copy()\<close> and every numpy function that returns a new array do; \<open>store_at\<close> replaces
  the content at an address, as an indexed assignment does. The data of a cube object
  is the address of its array. A plain \<^verbatim>\<open>ndarray\<close> is stored as a masked array with no
  cell masked.
\<close>

type_synonym addr = nat

definition alloc :: "'a \<Rightarrow> 'a list \<Rightarrow> addr \<times> 'a list" where
  "alloc v h = (length h, h @ [v])"

definition store_at :: "addr \<Rightarrow> 'a \<Rightarrow> 'a list \<Rightarrow> 'a list" where
  "store_at a v h = h[a := v]"

text \<open>The store \<open>h'\<close> has every array object of the store \<open>h\<close>, with the same content.\<close>

definition grows :: "'a list \<Rightarrow> 'a list \<Rightarrow> bool" where
  "grows h h' = (length h \<le> length h' \<and> (\<forall>a < length h. h' ! a = h ! a))"

definition plain :: "'a masked2d \<Rightarrow> 'a array2d" where
  "plain a = map2d fst a"

definition ndarray :: "'a array2d \<Rightarrow> 'a masked2d" where
  "ndarray x = map2d (\<lambda>v. (v, False)) x"

text \<open>One turn of the loop \<^verbatim>\<open>for match in (True, False)\<close>, on the store.\<close>

definition vicinity_pass_st ::
  "bool array2d \<Rightarrow> 'a \<Rightarrow> addr \<Rightarrow> int \<Rightarrow> bool
     \<Rightarrow> (error + addr) \<times> ('a::{linorder,uminus}) masked2d list
     \<Rightarrow> (error + addr) \<times> 'a masked2d list" where
  "vicinity_pass_st lm cube_fill_value unmasked_cube_data grid_points match st =
     (case st of
        (Inl e, h) \<Rightarrow> (Inl e, h)
      | (Inr max_data, h) \<Rightarrow>
          (let (matched_data, h1) = alloc (h ! unmasked_cube_data) h
           in if shape lm \<noteq> shape (h1 ! matched_data) then (Inl BooleanIndexMismatch, h1)
              else
                (let h2 = store_at matched_data
                            (ndarray (set_where (plain (h1 ! matched_data))
                                        (map2d (\<lambda>l. l \<noteq> match) lm) (- cube_fill_value))) h1;
                     (matched_max_data, h3) =
                       alloc (ndarray (maximum_filter (plain (h2 ! matched_data)) grid_points)) h2;
                     (max_data', h4) =
                       alloc (ndarray (np_where (map2d (\<lambda>l. l = match) lm)
                                         (plain (h3 ! matched_max_data))
                                         (plain (h3 ! max_data)))) h3
                 in (Inr max_data', h4))))"

text \<open>
  \<^verbatim>\<open>maximum_within_vicinity\<close> on the store, in the three parts of the source.
  First \<^verbatim>\<open>unmasked_cube_data\<close>: \<^verbatim>\<open>cube.data.copy()\<close> is a new array, and for a
  cube with masked cells \<^verbatim>\<open>cube.data.data.copy()\<close> is another, into which
  \<^verbatim>\<open>unmasked_cube_data[cube.data.mask] = -cube_fill_value\<close> writes.
\<close>

definition unmasked_copy_st ::
  "'a \<Rightarrow> addr cube \<Rightarrow> ('a::{linorder,uminus}) masked2d list \<Rightarrow> addr \<times> 'a masked2d list" where
  "unmasked_copy_st cube_fill_value c h =
     (let (copy_of_data, h1) = alloc (h ! data c) h
      in if is_masked (h1 ! data c)
         then (let (copy_of_values, h2) = alloc (ndarray (plain (h1 ! data c))) h1
               in (copy_of_values,
                   store_at copy_of_values
                     (ndarray (set_where (plain (h2 ! copy_of_values))
                                 (map2d snd (h2 ! data c)) (- cube_fill_value))) h2))
         else (copy_of_data, h1))"

text \<open>
  Then \<^verbatim>\<open>max_data\<close>: with a land mask \<^verbatim>\<open>np.empty_like\<close> makes a new array and the
  loop runs; without one the filter returns a new array.
\<close>

definition max_data_st ::
  "vicinity_plugin \<Rightarrow> 'a \<Rightarrow> (nat \<Rightarrow> nat \<Rightarrow> 'a) \<Rightarrow> addr cube \<Rightarrow> addr \<Rightarrow> int
     \<Rightarrow> ('a::{linorder,uminus}) masked2d list \<Rightarrow> (error + addr) \<times> 'a masked2d list" where
  "max_data_st self cube_fill_value junk c unmasked_cube_data grid_points h =
     (case land_mask self of
        Some lm \<Rightarrow>
          (let (empty_array, h1) = alloc (ndarray (np_empty_like junk (h ! data c))) h
           in fold (vicinity_pass_st lm cube_fill_value unmasked_cube_data grid_points)
                [True, False] (Inr empty_array, h1))
      | None \<Rightarrow>
          (let (a, h1) = alloc (ndarray (maximum_filter (plain (h ! unmasked_cube_data)) grid_points)) h
           in (Inr a, h1)))"

text \<open>
  Last the result: for a cube with masked cells
  \<^verbatim>\<open>max_cube.data.data[~cube.data.mask] = max_data[~cube.data.mask]\<close> writes into the
  array of the new cube; otherwise \<^verbatim>\<open>max_cube.data = max_data\<close> makes the new cube
  refer to the array \<^verbatim>\<open>max_data\<close>.
\<close>

definition update_max_cube_st ::
  "addr cube \<Rightarrow> addr \<Rightarrow> addr \<Rightarrow> 'a masked2d list \<Rightarrow> addr cube \<times> 'a masked2d list" where
  "update_max_cube_st c max_cube_data max_data h =
     (if is_masked (h ! data c)
      then (c\<lparr>data := max_cube_data\<rparr>,
            store_at max_cube_data
              (map2d (\<lambda>((v, m'), (m, x)). (if m then v else x, m'))
                 (zip2d (h ! max_cube_data)
                    (zip2d (map2d snd (h ! data c)) (plain (h ! max_data))))) h)
      else (c\<lparr>data := max_data\<rparr>, h))"

text \<open>The whole: \<^verbatim>\<open>max_cube = cube.copy()\<close> is a new cube with a new array.\<close>

definition maximum_within_vicinity_st ::
  "convert_units \<Rightarrow> vicinity_plugin \<Rightarrow> 'a \<Rightarrow> (nat \<Rightarrow> nat \<Rightarrow> 'a)
     \<Rightarrow> addr cube \<Rightarrow> ('a::{linorder,uminus}) masked2d list
     \<Rightarrow> (error + addr cube) \<times> 'a masked2d list" where
  "maximum_within_vicinity_st conv self cube_fill_value junk c h =
     (case resolve_grid_point_radius conv self c of
        Inl e \<Rightarrow> (Inl e, h)
      | Inr grid_point_radius' \<Rightarrow>
          (let grid_points = 2 * grid_point_radius' + 1;
               (max_cube_data, h1) = alloc (h ! data c) h;
               (unmasked_cube_data, h2) = unmasked_copy_st cube_fill_value c h1;
               (max_data, h3) =
                 max_data_st self cube_fill_value junk c unmasked_cube_data grid_points h2
           in case max_data of
                Inl e \<Rightarrow> (Inl e, h3)
              | Inr md \<Rightarrow>
                  (let (max_cube, h4) = update_max_cube_st c max_cube_data md h3
                   in (Inr max_cube, h4))))"

text \<open>
  Modelled from the spec: \<^verbatim>\<open>spatial_coords_match\<close> of
  \<^verbatim>\<open>improver.utilities.cube_checker\<close>, which is not among the sources. The spec: a
  land mask must share identical spatial coordinates with the field.
\<close>

definition spatial_coords_match :: "('d, 'm) cube_scheme \<Rightarrow> ('e, 'n) cube_scheme \<Rightarrow> bool" where
  "spatial_coords_match c1 c2 = (xcoord c1 = xcoord c2 \<and> ycoord c1 = ycoord c2)"

text \<open>
  A field of any dimension is the list of its two-dimensional spatial slices, in the
  order in which \<^verbatim>\<open>cube.slices([y, x])\<close> yields them. The store keeps such arrays and
  the two-dimensional arrays apart.
\<close>

record 'a vstore =
  nd_arrays :: "'a masked2d list list"
  arrays :: "'a masked2d list"

text \<open>
  One turn of the loop of \<^verbatim>\<open>OccurrenceWithinVicinity.process\<close>: the slice that
  \<^verbatim>\<open>cube.slices\<close> yields is a new cube whose data is a copy of that part of the data of
  the cube.
\<close>

definition vicinity_slice_step ::
  "convert_units \<Rightarrow> vicinity_plugin \<Rightarrow> 'a \<Rightarrow> (nat \<Rightarrow> nat \<Rightarrow> 'a) \<Rightarrow> addr cube \<Rightarrow> nat
     \<Rightarrow> (error + addr cube list) \<times> ('a::{linorder,uminus}) vstore
     \<Rightarrow> (error + addr cube list) \<times> 'a vstore" where
  "vicinity_slice_step conv self cube_fill_value junk c k st =
     (case st of
        (Inl e, s) \<Rightarrow> (Inl e, s)
      | (Inr max_cubes, s) \<Rightarrow>
          (let (a, h1) = alloc (nd_arrays s ! data c ! k) (arrays s);
               cube_slice = c\<lparr>data := a\<rparr>
           in case maximum_within_vicinity_st conv self cube_fill_value junk cube_slice h1 of
                (Inl e, h2) \<Rightarrow> (Inl e, s\<lparr>arrays := h2\<rparr>)
              | (Inr max_cube, h2) \<Rightarrow> (Inr (max_cubes @ [max_cube]), s\<lparr>arrays := h2\<rparr>)))"

text \<open>
  \<^verbatim>\<open>OccurrenceWithinVicinity.process\<close>. \<^verbatim>\<open>merge_cube\<close> makes a new cube from the
  cubes of the slices and fails on an empty list. Modelled from the spec:
  \<^verbatim>\<open>check_cube_coordinates\<close>, which is not among the sources; the spec: the slices are
  reassembled into a field with the original dimensionality and coordinate order
  restored.
\<close>

definition OccurrenceWithinVicinity_process ::
  "convert_units \<Rightarrow> vicinity_plugin \<Rightarrow> 'a \<Rightarrow> (nat \<Rightarrow> nat \<Rightarrow> 'a) \<Rightarrow> addr cube
     \<Rightarrow> ('a::{linorder,uminus}) vstore \<Rightarrow> (error + addr cube) \<times> 'a vstore" where
  "OccurrenceWithinVicinity_process conv self cube_fill_value junk c s =
     (if (case land_mask_cube self of Some lmc \<Rightarrow> \<not> spatial_coords_match c lmc | None \<Rightarrow> False)
      then (Inl SpatialMismatch, s)
      else
        (case fold (vicinity_slice_step conv self cube_fill_value junk c)
                [0..<length (nd_arrays s ! data c)] (Inr [], s) of
           (Inl e, s') \<Rightarrow> (Inl e, s')
         | (Inr max_cubes, s') \<Rightarrow>
             if max_cubes = [] then (Inl MergeError, s')
             else
               (let (a, f') = alloc (map (\<lambda>max_cube. arrays s' ! data max_cube) max_cubes) (nd_arrays s')
                in (Inr (c\<lparr>data := a\<rparr>), s'\<lparr>nd_arrays := f'\<rparr>))))"

text \<open>The cube with its data read from the store.\<close>

definition cube_at :: "'a list \<Rightarrow> addr cube \<Rightarrow> 'a cube" where
  "cube_at h c = \<lparr>cube_name = cube_name c, xcoord = xcoord c, ycoord = ycoord c, data = h ! data c\<rparr>"

section \<open>Neighbourhood processing with a mask (\<^verbatim>\<open>lib/improver/nbhood/use_nbhood.py\<close>)\<close>

text \<open>
  Modelled from the spec: \<^verbatim>\<open>NeighbourhoodProcessing(...).process(cube, mask_cube)\<close> of
  \<^verbatim>\<open>improver.nbhood.nbhood\<close>, which is not among the sources. The spec: a primitive
  that applies the kernel to a two-dimensional array, honouring a per-cell inclusion
  mask, and returns the sum or the fraction. It is the parameter \<open>nbhood\<close>, a function of
  the content of the slice and of the mask that makes the content of a new array or
  raises; the settings of the plugin (radii, lead times, weighted mode, sum or
  fraction, re-masking) are settings of the primitive.
\<close>

type_synonym 'a nbhood_primitive = "'a masked2d \<Rightarrow> 'a masked2d \<Rightarrow> error + 'a masked2d"

text \<open>
  One turn of the inner loop, over \<^verbatim>\<open>mask_cube.slices_over(coord_for_masking)\<close>: the
  slice of the mask is a new cube with a copy of that part of the mask; the output of
  the primitive, with the coordinate of the slice added and promoted to a new axis, is
  a new cube.
\<close>

definition nbhood_band_step ::
  "'a nbhood_primitive \<Rightarrow> addr cube \<Rightarrow> addr \<Rightarrow> nat
     \<Rightarrow> (error + addr list) \<times> 'a vstore \<Rightarrow> (error + addr list) \<times> 'a vstore" where
  "nbhood_band_step nbhood mask_cube x_y_slice k st =
     (case st of
        (Inl e, s) \<Rightarrow> (Inl e, s)
      | (Inr cube_slices, s) \<Rightarrow>
          (let (cube_slice, h1) = alloc (nd_arrays s ! data mask_cube ! k) (arrays s)
           in case nbhood (h1 ! x_y_slice) (h1 ! cube_slice) of
                Inl e \<Rightarrow> (Inl e, s\<lparr>arrays := h1\<rparr>)
              | Inr out \<Rightarrow>
                  (let (output_cube, h2) = alloc out h1
                   in (Inr (cube_slices @ [output_cube]), s\<lparr>arrays := h2\<rparr>))))"

text \<open>
  One turn of the outer loop, over \<^verbatim>\<open>cube.slices([yname, xname])\<close>.
  \<^verbatim>\<open>concatenate_cube\<close> makes a new cube from the cubes of the bands and fails when
  there is none or when they do not fit together. Modelled from the spec:
  \<^verbatim>\<open>find_dimension_coordinate_mismatch\<close> and \<^verbatim>\<open>check_cube_coordinates\<close>, which are not
  among the sources, reconcile the order and presence of the dimension coordinates; they
  leave the data as it is.
\<close>

definition nbhood_slice_step ::
  "'a nbhood_primitive \<Rightarrow> addr cube \<Rightarrow> addr cube \<Rightarrow> nat
     \<Rightarrow> (error + addr list) \<times> 'a vstore \<Rightarrow> (error + addr list) \<times> 'a vstore" where
  "nbhood_slice_step nbhood c mask_cube k st =
     (case st of
        (Inl e, s) \<Rightarrow> (Inl e, s)
      | (Inr result_slices, s) \<Rightarrow>
          (let (x_y_slice, h1) = alloc (nd_arrays s ! data c ! k) (arrays s);
               s1 = s\<lparr>arrays := h1\<rparr>
           in case fold (nbhood_band_step nbhood mask_cube x_y_slice)
                     [0..<length (nd_arrays s1 ! data mask_cube)] (Inr [], s1) of
                (Inl e, s2) \<Rightarrow> (Inl e, s2)
              | (Inr cube_slices, s2) \<Rightarrow>
                  if cube_slices = [] then (Inl MergeError, s2)
                  else if \<exists>a \<in> set cube_slices. shape (arrays s2 ! a) \<noteq> shape (arrays s2 ! hd cube_slices)
                  then (Inl ConcatenateError, s2)
                  else
                    (let (concatenated_cube, f) =
                           alloc (map (\<lambda>a. arrays s2 ! a) cube_slices) (nd_arrays s2)
                     in (Inr (result_slices @ [concatenated_cube]), s2\<lparr>nd_arrays := f\<rparr>))))"

text \<open>\<^verbatim>\<open>ApplyNeighbourhoodProcessingWithAMask.process\<close>: \<^verbatim>\<open>merge_cube\<close> makes the new cube.\<close>

definition ApplyNeighbourhoodProcessingWithAMask_process ::
  "'a nbhood_primitive \<Rightarrow> addr cube \<Rightarrow> addr cube \<Rightarrow> 'a vstore \<Rightarrow> (error + addr cube) \<times> 'a vstore" where
  "ApplyNeighbourhoodProcessingWithAMask_process nbhood c mask_cube s =
     (case fold (nbhood_slice_step nbhood c mask_cube) [0..<length (nd_arrays s ! data c)] (Inr [], s) of
        (Inl e, s') \<Rightarrow> (Inl e, s')
      | (Inr result_slices, s') \<Rightarrow>
          if result_slices = [] then (Inl MergeError, s')
          else
            (let (a, f) = alloc (concat (map (\<lambda>r. nd_arrays s' ! r) result_slices)) (nd_arrays s')
             in (Inr (c\<lparr>data := a\<rparr>), s'\<lparr>nd_arrays := f\<rparr>)))"

section \<open>Collapsing the masked coordinate (\<^verbatim>\<open>lib/improver/nbhood/use_nbhood.py\<close>)\<close>

subsection \<open>Fields, arrays and the store\<close>

text \<open>
  A three-dimensional array over the masking coordinate and the two spatial axes is
  kept as a list of bands, one per point of the masking coordinate, each band the list
  of its cells at the spatial locations (\<open>band ! j\<close> is the cell at location \<open>j\<close>).
  The element-wise operations and the reduction along the masking axis do not depend on
  where that axis stands among the dimensions, so the arrangement loses nothing. A field
  with further leading dimensions is the list of its three-dimensional slices, in the
  order in which \<^verbatim>\<open>cube.slices\<close> yields them, with the shape of the leading
  dimensions (empty for a three-dimensional field).
\<close>

record 'a ndarray =
  outer :: "nat list"
  slices3d :: "'a array2d list"

record cell_method =
  cm_method :: string
  cm_coord_names :: "string list"

text \<open>
  What \<^verbatim>\<open>CollapseMaskedNeighbourhoodCoordinate\<close> reads of a cube: the names of its
  coordinates (dimension, auxiliary and scalar), its cell methods and its data. In the
  store the data of a cube object is the address of an array object.
\<close>

record 'd ncube =
  coord_names :: "string list"
  cell_methods :: "cell_method list"
  ndata :: 'd

text \<open>
  Array objects live in a store, one list per kind of array; an address is an index.
  \<open>alloc\<close> makes a new array object, an in-place write replaces the content at an
  address. The data of a neighbourhood field is floats with a mask; weights are finite.
\<close>

record heaps =
  data_arrays :: "(pyfloat \<times> bool) ndarray list"
  weight_arrays :: "(real \<times> bool) array2d list"

definition alloc_data :: "(pyfloat \<times> bool) ndarray \<Rightarrow> heaps \<Rightarrow> addr \<times> heaps" where
  "alloc_data a h = (length (data_arrays h), h\<lparr>data_arrays := data_arrays h @ [a]\<rparr>)"

definition alloc_weights :: "(real \<times> bool) array2d \<Rightarrow> heaps \<Rightarrow> addr \<times> heaps" where
  "alloc_weights a h = (length (weight_arrays h), h\<lparr>weight_arrays := weight_arrays h @ [a]\<rparr>)"

definition write_weights :: "addr \<Rightarrow> (real \<times> bool) array2d \<Rightarrow> heaps \<Rightarrow> heaps" where
  "write_weights a w h = h\<lparr>weight_arrays := (weight_arrays h)[a := w]\<rparr>"

definition np_isnan :: "pyfloat \<Rightarrow> bool" where
  "np_isnan x = (x = NaN)"

definition np_isfinite :: "pyfloat \<Rightarrow> bool" where
  "np_isfinite x = (case x of Fin _ \<Rightarrow> True | _ \<Rightarrow> False)"

text \<open>
  \<^verbatim>\<open>ma.masked_invalid(a)\<close> (with its default \<^verbatim>\<open>copy=True\<close>): a new masked array with
  the values of \<open>a\<close>, masked where \<open>a\<close> was masked or holds \<open>NaN\<close> or an infinity.
\<close>

definition masked_invalid :: "(pyfloat \<times> bool) ndarray \<Rightarrow> (pyfloat \<times> bool) ndarray" where
  "masked_invalid a = a\<lparr>slices3d := map (map2d (\<lambda>(v, m). (v, m \<or> \<not> np_isfinite v))) (slices3d a)\<rparr>"

subsection \<open>The plugin\<close>

text \<open>
  \<^verbatim>\<open>self.weights\<close> is a cube, or anything else (\<^verbatim>\<open>None\<close>, a scalar), which is handed
  to the reduction as it is.
\<close>

datatype weights_setting = WeightsCube "addr ncube" | NotACube "real option"

record collapse_plugin =
  coord_masked :: string
  weights :: weights_setting

text \<open>The weights as the reduction receives them: the content of an array, or the other value.\<close>

datatype weights_value = WeightsArray "(real \<times> bool) array2d" | OtherWeights "real option"

text \<open>
  The sum of the weights of one spatial location along the masking axis; a masked weight
  does not count.
\<close>

definition axis_sum :: "(real \<times> bool) array2d \<Rightarrow> nat \<Rightarrow> real" where
  "axis_sum w j = sum_list (map (\<lambda>band. if snd (band ! j) then 0 else fst (band ! j)) w)"

text \<open>
  Modelled from the spec: \<^verbatim>\<open>WeightsUtilities.normalise_weights(weights, axis)\<close> of
  \<^verbatim>\<open>improver.blending.weights\<close>, which is not among the sources. The spec: the weights
  are renormalised along the masking-coordinate axis so that they again sum to 1 at
  every spatial location; a location where all weights were zeroed remains zero, the
  renormalisation being a no-op there so that no division by zero occurs; the element
  mask of the weights is preserved. The result is a new array.
\<close>

definition normalise_weights :: "(real \<times> bool) array2d \<Rightarrow> (real \<times> bool) array2d" where
  "normalise_weights w =
     map (\<lambda>band. map (\<lambda>j. (if snd (band ! j) \<or> axis_sum w j = 0
                                then fst (band ! j)
                                else fst (band ! j) / axis_sum w j,
                              snd (band ! j)))
                      [0..<length band]) w"

text \<open>
  \<^verbatim>\<open>reweight_weights\<close>. \<open>wc\<close> is the cube object \<^verbatim>\<open>self.weights\<close>, \<open>names\<close> and \<open>nb\<close>
  are the coordinate names and the data of \<^verbatim>\<open>nbhood_cube\<close>. \<^verbatim>\<open>np.isnan\<close> of a masked
  array tests the values under the mask too. The assignment
  \<^verbatim>\<open>self.weights.data[condition] = 0.0\<close> writes into the array object in place
  (and leaves the cells written unmasked); \<^verbatim>\<open>coord_dims\<close> raises afterwards when the cube
  has no coordinate of the name; \<^verbatim>\<open>self.weights.data = ...\<close> then makes the cube object
  refer to the new, normalised array. The result is the cube object after the call.
  Arrays of unequal shapes are not broadcast here: the operation fails.
\<close>

definition reweight_weights ::
  "string \<Rightarrow> addr ncube \<Rightarrow> string list \<Rightarrow> (pyfloat \<times> bool) array2d \<Rightarrow> heaps
     \<Rightarrow> (error + addr ncube) \<times> heaps" where
  "reweight_weights coord wc names nb h =
     (let w = weight_arrays h ! ndata wc;
          condition = map2d (\<lambda>(x, m). np_isnan x) nb
      in if is_masked w \<and> shape condition \<noteq> shape w then (Inl BroadcastError, h)
         else
           (let condition' =
                  (if is_masked w
                   then map2d (\<lambda>(c, (v, m)). c \<and> \<not> m) (zip2d condition w)
                   else condition)
            in if shape condition' \<noteq> shape w then (Inl BooleanIndexMismatch, h)
               else
                 (let h1 = write_weights (ndata wc)
                             (map2d (\<lambda>((v, m), c). if c then (0, False) else (v, m)) (zip2d w condition')) h
                  in if coord \<notin> set names then (Inl CoordinateNotFound, h1)
                     else
                       (let (a, h2) = alloc_weights (normalise_weights (weight_arrays h1 ! ndata wc)) h1
                        in (Inr (wc\<lparr>ndata := a\<rparr>), h2)))))"

text \<open>
  \<^verbatim>\<open>cube.remove_coord(name)\<close> of the cube library: the cube must have exactly one
  coordinate of the name, which is removed.
\<close>

definition remove_coord :: "('d, 'm) ncube_scheme \<Rightarrow> string \<Rightarrow> error + ('d, 'm) ncube_scheme" where
  "remove_coord c name' =
     (if count_list (coord_names c) name' = 1
      then Inr (c\<lparr>coord_names := remove1 name' (coord_names c)\<rparr>)
      else Inl CoordinateNotFound)"

text \<open>
  The loop of \<^verbatim>\<open>process\<close> over \<^verbatim>\<open>cube.slices([coord_masked, yname, xname])\<close> with
  \<^verbatim>\<open>slice_3d.collapsed(coord_masked, iris.analysis.MEAN, weights=weights)\<close>, the merge
  of the collapsed slices and \<^verbatim>\<open>check_cube_coordinates\<close> belong to the cube library and
  to a module that is not among the sources. Together they are the parameter \<open>ext\<close>:
  from the name of the masking coordinate, the cube (as it is after the masking of its
  invalid values) and the weights it makes the content of a new cube, or raises. It
  changes no existing array.
\<close>

type_synonym collapse_primitive =
  "string \<Rightarrow> (pyfloat \<times> bool) ndarray ncube \<Rightarrow> weights_value
     \<Rightarrow> error + (pyfloat \<times> bool) ndarray ncube"

text \<open>The cube with its data read from the store.\<close>

definition cube_value :: "heaps \<Rightarrow> addr ncube \<Rightarrow> (pyfloat \<times> bool) ndarray ncube" where
  "cube_value h c =
     \<lparr>coord_names = coord_names c, cell_methods = cell_methods c, ndata = data_arrays h ! ndata c\<rparr>"

text \<open>
  The part of \<^verbatim>\<open>process\<close> that settles the weights. \<^verbatim>\<open>self.weights.shape != cube.shape\<close>
  holds when the cube has leading dimensions (the weights have the masking coordinate
  and the two spatial axes) or the shapes of the three-dimensional arrays differ;
  \<^verbatim>\<open>next(cube.slices(...))\<close> is the first slice, and the whole of a three-dimensional
  cube is its one slice.
\<close>

definition settle_weights ::
  "collapse_plugin \<Rightarrow> addr ncube \<Rightarrow> heaps \<Rightarrow> (error + weights_value) \<times> collapse_plugin \<times> heaps" where
  "settle_weights self cube h =
     (case weights self of
        WeightsCube wc \<Rightarrow>
          (let d = data_arrays h ! ndata cube;
               shapes_differ =
                 (case (outer d, slices3d d) of
                    ([], [s]) \<Rightarrow> shape (weight_arrays h ! ndata wc) \<noteq> shape s
                  | _ \<Rightarrow> True);
               reweighted =
                 (if shapes_differ
                  then (case slices3d d of
                          [] \<Rightarrow> (Inl StopIteration, h)
                        | first_slice # _ \<Rightarrow>
                            reweight_weights (coord_masked self) wc (coord_names cube) first_slice h)
                  else (case slices3d d of
                          [] \<Rightarrow> (Inl StopIteration, h)
                        | s # _ \<Rightarrow> reweight_weights (coord_masked self) wc (coord_names cube) s h))
           in case reweighted of
                (Inl e, h') \<Rightarrow> (Inl e, self, h')
              | (Inr wc', h') \<Rightarrow>
                  (Inr (WeightsArray (weight_arrays h' ! ndata wc')),
                   self\<lparr>weights := WeightsCube wc'\<rparr>, h'))
      | NotACube v \<Rightarrow> (Inr (OtherWeights v), self, h))"

text \<open>
  \<^verbatim>\<open>CollapseMaskedNeighbourhoodCoordinate.process\<close>. Its first statement,
  \<^verbatim>\<open>cube.data = ma.masked_invalid(cube.data)\<close>, makes a new array and makes the cube
  object that was passed in refer to it. The call yields the result (a new cube with a
  new array) or the error, the cube object that was passed in as it is after the call,
  the plugin after the call, and the store.
\<close>

definition process ::
  "collapse_primitive \<Rightarrow> collapse_plugin \<Rightarrow> addr ncube \<Rightarrow> heaps
     \<Rightarrow> (error + addr ncube) \<times> addr ncube \<times> collapse_plugin \<times> heaps" where
  "process ext self cube h =
     (let (a, h1) = alloc_data (masked_invalid (data_arrays h ! ndata cube)) h;
          cube1 = cube\<lparr>ndata := a\<rparr>
      in case settle_weights self cube1 h1 of
           (Inl e, self1, h2) \<Rightarrow> (Inl e, cube1, self1, h2)
         | (Inr weights', self1, h2) \<Rightarrow>
             (case ext (coord_masked self) (cube_value h2 cube1) weights' of
                Inl e \<Rightarrow> (Inl e, cube1, self1, h2)
              | Inr result \<Rightarrow>
                  (case remove_coord result (coord_masked self) of
                     Inl e \<Rightarrow> (Inl e, cube1, self1, h2)
                   | Inr result' \<Rightarrow>
                       (let new_cell_methods =
                              filter (\<lambda>cell_method. cm_coord_names cell_method \<noteq> [coord_masked self])
                                (cell_methods result');
                            (r, h3) = alloc_data (ndata result') h2
                        in (Inr \<lparr>coord_names = coord_names result',
                                  cell_methods = new_cell_methods, ndata = r\<rparr>,
                            cube1, self1, h3)))))"

section \<open>Example inputs\<close>

text \<open>A unit library that leaves coordinates already in metres as they are.\<close>

definition metres_already :: convert_units where
  "metres_already co u = Some co"

text \<open>A 4 by 4 grid with 2 km spacing, the y axis striding negatively.\<close>

definition grid_2km :: "unit cube" where
  "grid_2km =
     \<lparr>cube_name = ''probability_of_rainfall_rate_above_threshold'',
      xcoord = \<lparr>coord_name = ''projection_x_coordinate'', points = [0, 2000, 4000, 6000], units = ''m''\<rparr>,
      ycoord = \<lparr>coord_name = ''projection_y_coordinate'', points = [6000, 4000, 2000, 0], units = ''m''\<rparr>,
      data = ()\<rparr>"

text \<open>The same grid with the last x point moved by 100 m.\<close>

definition grid_perturbed :: "unit cube" where
  "grid_perturbed = grid_2km\<lparr>xcoord := (xcoord grid_2km)\<lparr>points := [0, 2000, 4000, 6100]\<rparr>\<rparr>"

text \<open>
  A 4 by 4 slice, its left half land and its right half sea, with one hot sea cell next
  to the boundary.
\<close>

definition half_land :: "real array2d cube" where
  "half_land =
     \<lparr>cube_name = ''land_binary_mask'',
      xcoord = xcoord grid_2km, ycoord = ycoord grid_2km,
      data = [[1, 1, 0, 0], [1, 1, 0, 0], [1, 1, 0, 0], [1, 1, 0, 0]]\<rparr>"

definition hot_sea_cell :: "real masked2d cube" where
  "hot_sea_cell =
     \<lparr>cube_name = ''probability_of_rainfall_rate_above_threshold'',
      xcoord = xcoord grid_2km, ycoord = ycoord grid_2km,
      data = map2d (\<lambda>v. (v, False)) [[0, 0, 0, 0], [0, 0, 1, 0], [0, 0, 0, 0], [0, 0, 0, 0]]\<rparr>"

definition with_land :: vicinity_plugin where
  "with_land = \<lparr>radius = None, grid_point_radius = Some 1, land_mask_cube = Some half_land\<rparr>"

definition without_land :: vicinity_plugin where
  "without_land = \<lparr>radius = None, grid_point_radius = Some 1, land_mask_cube = None\<rparr>"

text \<open>The entry of \<^verbatim>\<open>netCDF4.default_fillvals\<close> for 4-byte floats, \<open>9.969209968386869e+36\<close>.\<close>

definition fillval_f4 :: real where
  "fillval_f4 = 9969209968386869000000000000000000000"

text \<open>
  The entry of \<^verbatim>\<open>netCDF4.default_fillvals\<close> for 4-byte signed integers, \<open>-2147483647\<close>,
  and the slice with the hot sea cell as a field of that data type. The values of the
  field and the negated fill value fit 32 bits, and the plugin only copies and compares
  them, so that unbounded integers stand for them.
\<close>

definition fillval_i4 :: int where
  "fillval_i4 = - 2147483647"

definition hot_sea_cell_i4 :: "int masked2d cube" where
  "hot_sea_cell_i4 =
     \<lparr>cube_name = ''probability_of_rainfall_rate_above_threshold'',
      xcoord = xcoord grid_2km, ycoord = ycoord grid_2km,
      data = [[(0, False), (0, False), (0, False), (0, False)],
              [(0, False), (0, False), (1, False), (0, False)],
              [(0, False), (0, False), (0, False), (0, False)],
              [(0, False), (0, False), (0, False), (0, False)]]\<rparr>"

text \<open>Memory that holds zeros, for \<^verbatim>\<open>np.empty_like\<close>.\<close>

definition stale_zeros :: "nat \<Rightarrow> nat \<Rightarrow> int" where
  "stale_zeros i j = 0"

text \<open>A plugin with a negative radius in grid points, which \<^verbatim>\<open>__init__\<close> accepts.\<close>

definition negative_radius :: vicinity_plugin where
  "negative_radius = \<lparr>radius = None, grid_point_radius = Some (- 1), land_mask_cube = Some half_land\<rparr>"

text \<open>A plugin with neither radius set, and a slice that has a masked cell.\<close>

definition no_radius :: vicinity_plugin where
  "no_radius = \<lparr>radius = None, grid_point_radius = None, land_mask_cube = Some half_land\<rparr>"

definition masked_slice :: "real masked2d cube" where
  "masked_slice =
     \<lparr>cube_name = ''probability_of_rainfall_rate_above_threshold'',
      xcoord = xcoord grid_2km, ycoord = ycoord grid_2km,
      data = [[(5, True), (0, False), (0, False), (0, False)],
              [(0, False), (0, False), (1, False), (0, False)],
              [(0, False), (1 / 2, False), (0, False), (0, False)],
              [(0, False), (0, False), (0, False), (0, False)]]\<rparr>"

text \<open>
  Two bands over two locations with uniform weights; the result of the first band is
  undefined at the first location, and both results are undefined at the second.
\<close>

definition two_bands :: "(pyfloat \<times> bool) array2d" where
  "two_bands = [[(NaN, False), (NaN, False)], [(Fin 3, False), (NaN, False)]]"

definition half_weights :: "(real \<times> bool) array2d" where
  "half_weights = [[(1 / 2, False), (1 / 2, False)], [(1 / 2, False), (1 / 2, False)]]"

definition example_store :: heaps where
  "example_store = \<lparr>data_arrays = [\<lparr>outer = [], slices3d = [two_bands]\<rparr>], weight_arrays = [half_weights]\<rparr>"

definition nbhood_field :: "addr ncube" where
  "nbhood_field =
     \<lparr>coord_names = [''topographic_zone'', ''projection_y_coordinate'', ''projection_x_coordinate''],
      cell_methods = [], ndata = 0\<rparr>"

definition weights_field :: "addr ncube" where
  "weights_field = nbhood_field"

definition collapse_zones :: collapse_plugin where
  "collapse_zones = \<lparr>coord_masked = ''topographic_zone'', weights = WeightsCube weights_field\<rparr>"

text \<open>
  An external reduction for the examples: it keeps the coordinates, records the mean
  over the masking coordinate as a cell method and returns the data it was given.
\<close>

definition keep_all :: collapse_primitive where
  "keep_all coord c w =
     Inr (c\<lparr>cell_methods := cell_methods c @ [\<lparr>cm_method = ''mean'', cm_coord_names = [coord]\<rparr>]\<rparr>)"

text \<open>A store that holds a field of two slices, and the cube of that field.\<close>

definition vicinity_store :: "real vstore" where
  "vicinity_store = \<lparr>nd_arrays = [[data masked_slice, data hot_sea_cell]], arrays = []\<rparr>"

definition two_slices :: "addr cube" where
  "two_slices =
     \<lparr>cube_name = ''probability_of_rainfall_rate_above_threshold'',
      xcoord = xcoord grid_2km, ycoord = ycoord grid_2km, data = 0\<rparr>"

text \<open>
  A store with a field of two slices and a mask of two bands, and a stand-in for the
  neighbourhood primitive that keeps the cells of the slice where the mask is not zero
  and masks the others.
\<close>

definition mask_store :: "real vstore" where
  "mask_store =
     \<lparr>nd_arrays = [[data masked_slice, data hot_sea_cell],
                   [map2d (\<lambda>v. (v, False)) (data half_land),
                    map2d (\<lambda>v. (1 - v, False)) (data half_land)]],
      arrays = []\<rparr>"

definition band_mask :: "addr cube" where
  "band_mask = two_slices\<lparr>cube_name := ''topographic_zone_weights'', data := 1\<rparr>"

definition keep_where_masked_in :: "real nbhood_primitive" where
  "keep_where_masked_in a m = Inr (map2d (\<lambda>((v, b), (w, _)). (v, b \<or> w = 0)) (zip2d a m))"

text \<open>A collapse plugin without weights.\<close>

definition collapse_unweighted :: collapse_plugin where
  "collapse_unweighted = \<lparr>coord_masked = ''topographic_zone'', weights = NotACube None\<rparr>"

section \<open>Properties of the grid geometry\<close>

lemma length_np_diff: "length (np_diff xs) = length xs - 1"
  by (induction xs rule: np_diff.induct) auto

lemma nth_np_diff: "Suc i < length xs \<Longrightarrow> np_diff xs ! i = xs ! Suc i - xs ! i"
proof (induction xs arbitrary: i rule: np_diff.induct)
  case (1 a b xs)
  then show ?case by (cases i) auto
qed auto

lemma np_diff_progression:
  "np_diff (map (\<lambda>i. p0 + real i * s) [0..<n]) = replicate (n - 1) s"
  by (rule nth_equalityI) (auto simp: length_np_diff nth_np_diff algebra_simps)

lemma np_mean_replicate: "0 < n \<Longrightarrow> np_mean (replicate n a) = Fin a"
  by (simp add: np_mean_def sum_list_replicate)

lemma np_allclose_replicate: "0 \<le> rtol \<Longrightarrow> np_allclose (replicate n a) (Fin a) rtol 0"
  by (simp add: np_allclose_def np_isclose_def list_all_iff)

lemma grid_2km_spacing:
  "calculate_grid_spacing metres_already grid_2km ''metres'' ax default_rtol = Inr (Fin 2000)"
  by (cases ax)
    (simp_all add: calculate_grid_spacing_def metres_already_def grid_2km_def cube_coord_def
      np_mean_def np_allclose_def np_isclose_def default_rtol_def)

text \<open>
  C4. With idealised (real) arithmetic: when the converted points of the axis are an exact
  arithmetic progression of at least two points with step \<open>s\<close> (and \<open>rtol\<close> is not
  negative), \<open>calculate_grid_spacing\<close> returns \<open>|s|\<close>, positive also for an axis that
  strides negatively; whenever every consecutive absolute difference is within \<open>rtol\<close>
  relative tolerance of their mean it returns that mean; and whenever some consecutive
  absolute difference deviates from the mean by more than \<open>rtol\<close> times the mean it
  raises the not-equally-spaced error instead of returning.
\<close>

theorem calculate_grid_spacing_spec:
  assumes "conv (cube_coord c ax) u = Some co"
  shows "(2 \<le> n \<and> 0 \<le> rtol \<and> points co = map (\<lambda>i. p0 + real i * s) [0..<n]
            \<longrightarrow> calculate_grid_spacing conv c u ax rtol = Inr (Fin \<bar>s\<bar>))
       \<and> (np_allclose (map abs (np_diff (points co))) (np_mean (map abs (np_diff (points co)))) rtol 0
            \<longrightarrow> calculate_grid_spacing conv c u ax rtol = Inr (np_mean (map abs (np_diff (points co)))))
       \<and> ((\<exists>d \<in> set (map abs (np_diff (points co))).
              \<bar>d - sum_list (map abs (np_diff (points co))) / real (length (np_diff (points co)))\<bar>
                > rtol * \<bar>sum_list (map abs (np_diff (points co))) / real (length (np_diff (points co)))\<bar>)
            \<longrightarrow> calculate_grid_spacing conv c u ax rtol = Inl (NotEquallySpaced (coord_name co)))"
proof (intro conjI impI)
  assume a: "2 \<le> n \<and> 0 \<le> rtol \<and> points co = map (\<lambda>i. p0 + real i * s) [0..<n]"
  then have d: "map abs (np_diff (points co)) = replicate (n - 1) \<bar>s\<bar>"
    by (simp add: np_diff_progression)
  from a have "0 < n - 1" by simp
  then have m: "np_mean (map abs (np_diff (points co))) = Fin \<bar>s\<bar>"
    unfolding d by (rule np_mean_replicate)
  from a have ac: "np_allclose (map abs (np_diff (points co))) (Fin \<bar>s\<bar>) rtol 0"
    unfolding d by (simp add: np_allclose_replicate)
  show "calculate_grid_spacing conv c u ax rtol = Inr (Fin \<bar>s\<bar>)"
    by (simp add: calculate_grid_spacing_def assms Let_def m ac)
next
  assume "np_allclose (map abs (np_diff (points co))) (np_mean (map abs (np_diff (points co)))) rtol 0"
  then show "calculate_grid_spacing conv c u ax rtol = Inr (np_mean (map abs (np_diff (points co))))"
    by (simp add: calculate_grid_spacing_def assms)
next
  assume "\<exists>d \<in> set (map abs (np_diff (points co))).
              \<bar>d - sum_list (map abs (np_diff (points co))) / real (length (np_diff (points co)))\<bar>
                > rtol * \<bar>sum_list (map abs (np_diff (points co))) / real (length (np_diff (points co)))\<bar>"
  then obtain d where d: "d \<in> set (map abs (np_diff (points co)))"
    "\<bar>d - sum_list (map abs (np_diff (points co))) / real (length (np_diff (points co)))\<bar>
       > rtol * \<bar>sum_list (map abs (np_diff (points co))) / real (length (np_diff (points co)))\<bar>"
    by blast
  then have ne: "map abs (np_diff (points co)) \<noteq> []" by auto
  then have m: "np_mean (map abs (np_diff (points co)))
      = Fin (sum_list (map abs (np_diff (points co))) / real (length (np_diff (points co))))"
    by (simp add: np_mean_def)
  from d(2) have "\<not> np_isclose d (np_mean (map abs (np_diff (points co)))) rtol 0"
    unfolding m np_isclose_def by simp
  with d(1) have "\<not> np_allclose (map abs (np_diff (points co))) (np_mean (map abs (np_diff (points co)))) rtol 0"
    unfolding np_allclose_def list_all_iff by blast
  then show "calculate_grid_spacing conv c u ax rtol = Inl (NotEquallySpaced (coord_name co))"
    by (simp add: calculate_grid_spacing_def assms)
qed

theorem calculate_grid_spacing_spec_witness:
  "calculate_grid_spacing metres_already grid_2km ''metres'' Y default_rtol = Inr (Fin 2000)
   \<and> calculate_grid_spacing metres_already grid_perturbed ''metres'' X default_rtol
       = Inl (NotEquallySpaced ''projection_x_coordinate'')"
proof -
  have c1: "metres_already (cube_coord grid_2km Y) ''metres'' = Some (ycoord grid_2km)"
    by (simp add: metres_already_def cube_coord_def)
  have p1: "points (ycoord grid_2km) = map (\<lambda>i. 6000 + real i * (- 2000)) [0..<4]"
    by (simp add: grid_2km_def upt_conv_Cons)
  have r1: "(0::real) \<le> default_rtol" by (simp add: default_rtol_def)
  have c2: "metres_already (cube_coord grid_perturbed X) ''metres'' = Some (xcoord grid_perturbed)"
    by (simp add: metres_already_def cube_coord_def)
  have p2: "points (xcoord grid_perturbed) = [0, 2000, 4000, 6100]"
    by (simp add: grid_perturbed_def)
  have d2: "\<exists>d \<in> set (map abs (np_diff (points (xcoord grid_perturbed)))).
      \<bar>d - sum_list (map abs (np_diff (points (xcoord grid_perturbed))))
             / real (length (np_diff (points (xcoord grid_perturbed))))\<bar>
      > default_rtol * \<bar>sum_list (map abs (np_diff (points (xcoord grid_perturbed))))
             / real (length (np_diff (points (xcoord grid_perturbed))))\<bar>"
    unfolding p2 by (simp add: default_rtol_def)
  have n2: "coord_name (xcoord grid_perturbed) = ''projection_x_coordinate''"
    by (simp add: grid_perturbed_def grid_2km_def)
  note ok = calculate_grid_spacing_spec
    [of metres_already grid_2km Y "''metres''" "ycoord grid_2km" 4 default_rtol 6000 "- 2000", OF c1]
  note bad = calculate_grid_spacing_spec
    [of metres_already grid_perturbed X "''metres''" "xcoord grid_perturbed" 4 default_rtol 0 2000, OF c2]
  from ok p1 r1
  have "calculate_grid_spacing metres_already grid_2km ''metres'' Y default_rtol = Inr (Fin 2000)"
    by simp
  moreover from bad d2
  have "calculate_grid_spacing metres_already grid_perturbed ''metres'' X default_rtol
       = Inl (NotEquallySpaced (coord_name (xcoord grid_perturbed)))"
    by blast
  ultimately show ?thesis by (simp add: n2)
qed

lemma trunc_toward_zero_pos: "0 \<le> q \<Longrightarrow> real_of_int (trunc_toward_zero q) \<le> q \<and> q < real_of_int (trunc_toward_zero q) + 1 \<and> 0 \<le> trunc_toward_zero q"
  by (auto simp: trunc_toward_zero_def; linarith?)

lemma trunc_toward_zero_zero_iff: "0 \<le> q \<Longrightarrow> trunc_toward_zero q = 0 \<longleftrightarrow> q < 1"
  by (auto simp: trunc_toward_zero_def; linarith?)

text \<open>
  C5. \<open>distance_to_number_of_grid_cells\<close> raises the positive-distance error for every
  distance \<open>\<le> 0\<close>. For a positive distance on an axis whose grid spacing is a finite
  non-zero \<open>s\<close> it computes \<open>distance / |s|\<close>; with \<open>return_int\<close> it truncates that
  quotient toward zero (the integer \<open>n\<close> with \<open>n \<le> q < n + 1\<close>, the quotient being
  positive) and raises the zero-cell-extent error when the truncated value is zero, which
  is exactly when the distance is smaller than the spacing.
\<close>

theorem distance_to_number_of_grid_cells_spec:
  "(distance \<le> 0 \<longrightarrow> distance_to_number_of_grid_cells conv c distance ax ri = Inl NonPositiveDistance)
   \<and> (0 < distance \<and> calculate_grid_spacing conv c ''metres'' ax default_rtol = Inr (Fin s) \<and> s \<noteq> 0 \<longrightarrow>
        distance_to_number_of_grid_cells conv c distance ax False = Inr (FloatCells (Fin (distance / \<bar>s\<bar>)))
      \<and> distance_to_number_of_grid_cells conv c distance ax True =
          (if trunc_toward_zero (distance / \<bar>s\<bar>) = 0 then Inl ZeroCellExtent
           else Inr (IntCells (trunc_toward_zero (distance / \<bar>s\<bar>))))
      \<and> real_of_int (trunc_toward_zero (distance / \<bar>s\<bar>)) \<le> distance / \<bar>s\<bar>
      \<and> distance / \<bar>s\<bar> < real_of_int (trunc_toward_zero (distance / \<bar>s\<bar>)) + 1
      \<and> (trunc_toward_zero (distance / \<bar>s\<bar>) = 0 \<longleftrightarrow> distance < \<bar>s\<bar>))"
proof (intro conjI impI)
  show "distance \<le> 0 \<Longrightarrow> distance_to_number_of_grid_cells conv c distance ax ri = Inl NonPositiveDistance"
    by (simp add: distance_to_number_of_grid_cells_def)
next
  assume a: "0 < distance \<and> calculate_grid_spacing conv c ''metres'' ax default_rtol = Inr (Fin s) \<and> s \<noteq> 0"
  then have q: "0 \<le> distance / \<bar>s\<bar>" by simp
  from a show "distance_to_number_of_grid_cells conv c distance ax False = Inr (FloatCells (Fin (distance / \<bar>s\<bar>)))"
    by (simp add: distance_to_number_of_grid_cells_def divide_by_abs_def)
  from a show "distance_to_number_of_grid_cells conv c distance ax True =
          (if trunc_toward_zero (distance / \<bar>s\<bar>) = 0 then Inl ZeroCellExtent
           else Inr (IntCells (trunc_toward_zero (distance / \<bar>s\<bar>))))"
    by (simp add: distance_to_number_of_grid_cells_def divide_by_abs_def py_int_def)
  from trunc_toward_zero_pos[OF q] show "real_of_int (trunc_toward_zero (distance / \<bar>s\<bar>)) \<le> distance / \<bar>s\<bar>"
    by simp
  from trunc_toward_zero_pos[OF q] show "distance / \<bar>s\<bar> < real_of_int (trunc_toward_zero (distance / \<bar>s\<bar>)) + 1"
    by simp
  from a trunc_toward_zero_zero_iff[OF q] show "trunc_toward_zero (distance / \<bar>s\<bar>) = 0 \<longleftrightarrow> distance < \<bar>s\<bar>"
    by (simp add: field_simps)
qed

theorem distance_to_number_of_grid_cells_spec_witness:
  "distance_to_number_of_grid_cells metres_already grid_2km (- 1) X True = Inl NonPositiveDistance
   \<and> distance_to_number_of_grid_cells metres_already grid_2km 5000 X False = Inr (FloatCells (Fin (5 / 2)))
   \<and> distance_to_number_of_grid_cells metres_already grid_2km 5000 X True = Inr (IntCells 2)"
proof -
  have t: "trunc_toward_zero (5000 / \<bar>2000\<bar>) = 2"
    by (simp add: trunc_toward_zero_def)
  from distance_to_number_of_grid_cells_spec [of "- 1" metres_already grid_2km X True 2000]
  have "distance_to_number_of_grid_cells metres_already grid_2km (- 1) X True = Inl NonPositiveDistance"
    by simp
  moreover from distance_to_number_of_grid_cells_spec [of 5000 metres_already grid_2km X True 2000]
    grid_2km_spacing [of X]
  have "distance_to_number_of_grid_cells metres_already grid_2km 5000 X False = Inr (FloatCells (Fin (5 / 2)))
      \<and> distance_to_number_of_grid_cells metres_already grid_2km 5000 X True = Inr (IntCells 2)"
    by (simp add: t)
  ultimately show ?thesis by simp
qed

lemma round_trip_general:
  assumes gx: "calculate_grid_spacing conv c ''metres'' X default_rtol = Inr (Fin s)"
      and gy: "calculate_grid_spacing conv c ''metres'' Y default_rtol = Inr (Fin sy)"
      and eq: "isclose_default (Fin s) (Fin sy)"
      and s: "0 < s"
      and d: "s \<le> distance"
  shows "\<exists>n r. distance_to_number_of_grid_cells conv c distance X True = Inr (IntCells n)
            \<and> number_of_grid_cells_to_distance conv c n = Inr (Fin r)
            \<and> \<bar>r - distance\<bar> \<le> s
            \<and> (\<forall>k::nat. distance = real k * s \<longrightarrow> n = int k \<and> r = distance)"
proof -
  let ?q = "distance / \<bar>s\<bar>"
  let ?n = "trunc_toward_zero ?q"
  from s d have q: "1 \<le> ?q" by simp
  then have q0: "0 \<le> ?q" by linarith
  from q trunc_toward_zero_zero_iff[OF q0] have n0: "?n \<noteq> 0" by simp
  from s d have dpos: "0 < distance" by linarith
  have 1: "distance_to_number_of_grid_cells conv c distance X True = Inr (IntCells ?n)"
    using dpos s n0 by (simp add: distance_to_number_of_grid_cells_def gx divide_by_abs_def py_int_def)
  have 2: "number_of_grid_cells_to_distance conv c ?n = Inr (Fin (s * real_of_int ?n))"
    using eq by (simp add: number_of_grid_cells_to_distance_def check_if_grid_is_equal_area_def gx gy times_int_def)
  from trunc_toward_zero_pos[OF q0] s have b: "s * real_of_int ?n \<le> distance" "distance < s * real_of_int ?n + s"
    by (simp_all add: field_simps)
  then have 3: "\<bar>s * real_of_int ?n - distance\<bar> \<le> s" by linarith
  have 4: "\<forall>k::nat. distance = real k * s \<longrightarrow> ?n = int k \<and> s * real_of_int ?n = distance"
  proof (intro allI impI)
    fix k :: nat assume "distance = real k * s"
    with s have "?q = real k" by simp
    then have "?n = int k" by (simp add: trunc_toward_zero_def)
    with \<open>distance = real k * s\<close> show "?n = int k \<and> s * real_of_int ?n = distance" by simp
  qed
  from 1 2 3 4 show ?thesis by blast
qed

text \<open>
  C6. On a grid whose x and y spacings are finite, positive and close to each other (so
  that the equal-area check passes), for every distance that is a positive whole multiple
  \<open>k\<close> of the x spacing \<open>s\<close>, \<open>distance_to_number_of_grid_cells\<close> (default axis, integer
  result) followed by \<open>number_of_grid_cells_to_distance\<close> returns a distance within one
  cell width of the original; with idealised arithmetic the cell count is \<open>k\<close> and the
  distance comes back exactly.
\<close>

theorem distance_cells_round_trip:
  assumes "calculate_grid_spacing conv c ''metres'' X default_rtol = Inr (Fin s)"
      and "calculate_grid_spacing conv c ''metres'' Y default_rtol = Inr (Fin sy)"
      and "isclose_default (Fin s) (Fin sy)"
      and "0 < s"
      and "distance = real k * s"
      and "0 < k"
  shows "\<exists>n r. distance_to_number_of_grid_cells conv c distance X True = Inr (IntCells n)
            \<and> number_of_grid_cells_to_distance conv c n = Inr (Fin r)
            \<and> \<bar>r - distance\<bar> \<le> s \<and> n = int k \<and> r = distance"
proof -
  from assms(4-6) have "s \<le> distance"
    by (cases k) (simp_all add: algebra_simps)
  from round_trip_general [OF assms(1-4) this] assms(5) show ?thesis
    by blast
qed

theorem distance_cells_round_trip_witness:
  "distance_to_number_of_grid_cells metres_already grid_2km 6000 X True = Inr (IntCells 3)
   \<and> number_of_grid_cells_to_distance metres_already grid_2km 3 = Inr (Fin 6000)"
proof -
  have "isclose_default (Fin 2000) (Fin 2000)"
    by (simp add: isclose_default_def)
  from distance_cells_round_trip [OF grid_2km_spacing grid_2km_spacing this, of 6000 3]
  show ?thesis by auto
qed

text \<open>
  C10. With \<open>return_int\<close> false \<open>distance_to_number_of_grid_cells\<close> never raises the
  zero-cell-extent error, so that error implies \<open>return_int\<close>; and for a positive distance
  on an axis with finite non-zero spacing \<open>s\<close> it returns the exact quotient
  \<open>distance / |s|\<close> as a fraction, also when the quotient lies strictly between 0 and 1.
\<close>

theorem distance_to_number_of_grid_cells_float:
  "distance_to_number_of_grid_cells conv c distance ax False \<noteq> Inl ZeroCellExtent
   \<and> (distance_to_number_of_grid_cells conv c distance ax ri = Inl ZeroCellExtent \<longrightarrow> ri)
   \<and> (0 < distance \<and> calculate_grid_spacing conv c ''metres'' ax default_rtol = Inr (Fin s) \<and> s \<noteq> 0 \<longrightarrow>
        distance_to_number_of_grid_cells conv c distance ax False = Inr (FloatCells (Fin (distance / \<bar>s\<bar>))))"
  by (auto simp: distance_to_number_of_grid_cells_def calculate_grid_spacing_def divide_by_abs_def Let_def
      split: sum.splits option.splits if_splits)

theorem distance_to_number_of_grid_cells_float_witness:
  "distance_to_number_of_grid_cells metres_already grid_2km 500 X False = Inr (FloatCells (Fin (1 / 4)))
   \<and> distance_to_number_of_grid_cells metres_already grid_2km 500 X True = Inl ZeroCellExtent"
proof -
  have t: "trunc_toward_zero (1 / 4) = 0"
    using trunc_toward_zero_zero_iff [of "1 / 4"] by simp
  have "distance_to_number_of_grid_cells metres_already grid_2km 500 X True = Inl ZeroCellExtent"
    by (simp add: distance_to_number_of_grid_cells_def grid_2km_spacing divide_by_abs_def py_int_def t)
  with distance_to_number_of_grid_cells_float [of metres_already grid_2km 500 X True 2000]
    grid_2km_spacing [of X]
  show ?thesis by simp
qed

section \<open>Properties of the vicinity maximum\<close>

subsection \<open>Arrays and windows\<close>

lemma shape_replicate_iff:
  "shape a = replicate ny nx \<longleftrightarrow> length a = ny \<and> (\<forall>i < ny. length (a ! i) = nx)"
  by (auto simp: shape_def list_eq_iff_nth_eq)

lemma shape_map2d [simp]: "shape (map2d f a) = shape a"
  by (simp add: shape_def map2d_def)

lemma shape_zip2d [simp]: "shape a = shape b \<Longrightarrow> shape (zip2d a b) = shape a"
  by (auto simp: shape_def zip2d_def list_eq_iff_nth_eq)

lemma shape_cell:
  "shape a = replicate ny nx \<Longrightarrow> i < ny \<Longrightarrow> length a = ny \<and> length (a ! i) = nx"
  by (simp add: shape_replicate_iff)

lemma nth_map2d:
  "i < length a \<Longrightarrow> j < length (a ! i) \<Longrightarrow> map2d f a ! i ! j = f (a ! i ! j)"
  by (simp add: map2d_def)

lemma nth_zip2d:
  "i < length a \<Longrightarrow> i < length b \<Longrightarrow> j < length (a ! i) \<Longrightarrow> j < length (b ! i)
     \<Longrightarrow> zip2d a b ! i ! j = (a ! i ! j, b ! i ! j)"
  by (simp add: zip2d_def)

lemma shape_set_where [simp]: "shape cond = shape a \<Longrightarrow> shape (set_where a cond v) = shape a"
  by (simp add: set_where_def)

lemma nth_set_where:
  assumes "shape a = replicate ny nx" "shape cond = replicate ny nx" "i < ny" "j < nx"
  shows "set_where a cond v ! i ! j = (if cond ! i ! j then v else a ! i ! j)"
  using assms by (simp add: set_where_def nth_map2d nth_zip2d shape_replicate_iff zip2d_def)

lemma shape_np_where [simp]:
  "shape x = shape cond \<Longrightarrow> shape y = shape cond \<Longrightarrow> shape (np_where cond x y) = shape cond"
  by (simp add: np_where_def)

lemma nth_np_where:
  assumes "shape cond = replicate ny nx" "shape x = replicate ny nx" "shape y = replicate ny nx"
    "i < ny" "j < nx"
  shows "np_where cond x y ! i ! j = (if cond ! i ! j then x ! i ! j else y ! i ! j)"
  using assms by (simp add: np_where_def nth_map2d nth_zip2d shape_replicate_iff zip2d_def)

lemma shape_np_empty_like [simp]: "shape (np_empty_like junk a) = shape a"
  unfolding shape_def np_empty_like_def by (rule nth_equalityI) simp_all

lemma set_window: "set (window n r r' i) = {k. k < n \<and> i \<le> k + r \<and> k \<le> i + r'}"
  by (auto simp: window_def)

lemma vicinity_product:
  "vicinity ny nx r i j = set (List.product (window ny r r i) (window nx r r j))"
  by (auto simp: vicinity_def set_window)

lemma finite_vicinity [simp]: "finite (vicinity ny nx r i j)"
  by (simp add: vicinity_product)

lemma self_in_vicinity: "i < ny \<Longrightarrow> j < nx \<Longrightarrow> (i, j) \<in> vicinity ny nx r i j"
  by (simp add: vicinity_def)

lemma vicinity_zero: "i < ny \<Longrightarrow> j < nx \<Longrightarrow> vicinity ny nx 0 i j = {(i, j)}"
  by (auto simp: vicinity_def)

lemma vicinity_bounds: "(k, l) \<in> vicinity ny nx r i j \<Longrightarrow> k < ny \<and> l < nx"
  by (simp add: vicinity_def)

lemma window_cells:
  "set (concat (map (\<lambda>k. map (\<lambda>l. f k l) (window nx r r j)) (window ny r r i)))
     = (\<lambda>(k, l). f k l) ` vicinity ny nx r i j"
  by (auto simp: vicinity_def set_window image_iff)

lemma maximum_filter_cells:
  assumes "shape a = replicate ny nx"
  shows "\<exists>m. maximum_filter a (2 * R + 1) = m \<and> shape m = replicate ny nx
           \<and> (\<forall>i < ny. \<forall>j < nx.
                 m ! i ! j = Max ((\<lambda>(k, l). a ! k ! l) ` vicinity ny nx (nat R) i j))"
proof (cases "R \<le> 0")
  case True
  then have "maximum_filter a (2 * R + 1) = a"
    by (simp add: maximum_filter_def)
  moreover from True have "nat R = 0" by simp
  ultimately show ?thesis using assms by (simp add: vicinity_zero)
next
  case False
  from assms have len: "length a = ny" "\<And>i. i < ny \<Longrightarrow> length (a ! i) = nx"
    by (simp_all add: shape_replicate_iff)
  let ?m = "map (\<lambda>i. map (\<lambda>j. Max (set (concat (map (\<lambda>k. map (\<lambda>l. a ! k ! l)
                                                            (window (length (a ! i)) (nat R) (nat R) j))
                                                  (window (length a) (nat R) (nat R) i)))))
                            [0..<length (a ! i)])
                  [0..<length a]"
  from False have r: "nat (2 * R + 1) div 2 = nat R" "nat (2 * R + 1) - nat R - 1 = nat R"
    by simp_all
  from False have 1: "maximum_filter a (2 * R + 1) = ?m"
    unfolding maximum_filter_def Let_def r by simp
  have 2: "shape ?m = replicate ny nx"
    by (simp add: shape_replicate_iff len)
  have 3: "\<forall>i < ny. \<forall>j < nx. ?m ! i ! j = Max ((\<lambda>(k, l). a ! k ! l) ` vicinity ny nx (nat R) i j)"
    by (simp add: len window_cells del: set_concat set_map)
  from 1 2 3 show ?thesis by blast
qed

subsection \<open>The filtered array, cell by cell\<close>

lemma not_is_masked_cell:
  "\<not> is_masked d \<Longrightarrow> k < length d \<Longrightarrow> l < length (d ! k) \<Longrightarrow> \<not> snd (d ! k ! l)"
proof -
  assume m: "\<not> is_masked d" and k: "k < length d" and l: "l < length (d ! k)"
  from k have "d ! k \<in> set d" by (rule nth_mem)
  moreover from l have "d ! k ! l \<in> set (d ! k)" by (rule nth_mem)
  ultimately show ?thesis using m by (auto simp: is_masked_def list_ex_iff)
qed

lemma unmasked_cube_data_shape:
  "shape (if is_masked d then map2d (\<lambda>(v, m). if m then - fill else v) d else map2d fst d) = shape d"
  by simp

lemma unmasked_cube_data_cell:
  assumes "shape d = replicate ny nx" "k < ny" "l < nx"
  shows "(if is_masked d then map2d (\<lambda>(v, m). if m then - fill else v) d else map2d fst d) ! k ! l
           = (if snd (d ! k ! l) then - fill else fst (d ! k ! l))"
proof -
  from assms have len: "k < length d" "l < length (d ! k)"
    by (simp_all add: shape_replicate_iff)
  show ?thesis
  proof (cases "is_masked d")
    case True
    with len show ?thesis by (simp add: nth_map2d split_beta)
  next
    case False
    with len not_is_masked_cell [OF False len] show ?thesis by (simp add: nth_map2d)
  qed
qed

lemma vicinity_pass_cells:
  assumes "shape lm = replicate ny nx" "shape u = replicate ny nx" "shape md = replicate ny nx"
  shows "\<exists>md'. vicinity_pass lm fill u (2 * R + 1) match (Inr md) = Inr md' \<and> shape md' = replicate ny nx
           \<and> (\<forall>i < ny. \<forall>j < nx. md' ! i ! j =
                 (if lm ! i ! j = match
                  then Max ((\<lambda>(k, l). if lm ! k ! l \<noteq> match then - fill else u ! k ! l)
                              ` vicinity ny nx (nat R) i j)
                  else md ! i ! j))"
proof -
  let ?matched = "set_where u (map2d (\<lambda>l. l \<noteq> match) lm) (- fill)"
  have sm: "shape ?matched = replicate ny nx"
    using assms(1,2) by simp
  from maximum_filter_cells [OF sm, of R] obtain m where m:
    "maximum_filter ?matched (2 * R + 1) = m" "shape m = replicate ny nx"
    "\<forall>i < ny. \<forall>j < nx. m ! i ! j = Max ((\<lambda>(k, l). ?matched ! k ! l) ` vicinity ny nx (nat R) i j)"
    by blast
  have cell: "?matched ! k ! l = (if lm ! k ! l \<noteq> match then - fill else u ! k ! l)"
    if "(k, l) \<in> vicinity ny nx r i j" for k l r i j
  proof -
    from that have kl: "k < ny" "l < nx" by (simp_all add: vicinity_def)
    have sc: "shape (map2d (\<lambda>l. l \<noteq> match) lm) = replicate ny nx" using assms(1) by simp
    from assms(1) kl have "map2d (\<lambda>l. l \<noteq> match) lm ! k ! l = (lm ! k ! l \<noteq> match)"
      by (simp add: nth_map2d shape_replicate_iff)
    with nth_set_where [OF assms(2) sc kl] show ?thesis by simp
  qed
  have img: "(\<lambda>(k, l). ?matched ! k ! l) ` vicinity ny nx r i j
      = (\<lambda>(k, l). if lm ! k ! l \<noteq> match then - fill else u ! k ! l) ` vicinity ny nx r i j" for r i j
  proof (rule image_cong [OF refl])
    fix x assume x: "x \<in> vicinity ny nx r i j"
    obtain k l where kl: "x = (k, l)" by (cases x)
    show "(case x of (k, l) \<Rightarrow> ?matched ! k ! l)
        = (case x of (k, l) \<Rightarrow> if lm ! k ! l \<noteq> match then - fill else u ! k ! l)"
      unfolding kl prod.case by (rule cell [OF x [unfolded kl]])
  qed
  let ?md' = "np_where (map2d (\<lambda>l. l = match) lm) m md"
  have 1: "vicinity_pass lm fill u (2 * R + 1) match (Inr md) = Inr ?md'"
    using assms(1,2) m(1) by (simp add: vicinity_pass_def Let_def)
  have sc': "shape (map2d (\<lambda>l. l = match) lm) = replicate ny nx" using assms(1) by simp
  have 2: "shape ?md' = replicate ny nx"
    using sc' m(2) assms(3) by simp
  have 3: "\<forall>i < ny. \<forall>j < nx. ?md' ! i ! j =
                 (if lm ! i ! j = match
                  then Max ((\<lambda>(k, l). if lm ! k ! l \<noteq> match then - fill else u ! k ! l)
                              ` vicinity ny nx (nat R) i j)
                  else md ! i ! j)"
  proof (intro allI impI)
    fix i j assume ij: "i < ny" "j < nx"
    from assms(1) ij have "map2d (\<lambda>l. l = match) lm ! i ! j = (lm ! i ! j = match)"
      by (simp add: nth_map2d shape_replicate_iff)
    with nth_np_where [OF sc' m(2) assms(3) ij] m(3) ij img
    show "?md' ! i ! j =
                 (if lm ! i ! j = match
                  then Max ((\<lambda>(k, l). if lm ! k ! l \<noteq> match then - fill else u ! k ! l)
                              ` vicinity ny nx (nat R) i j)
                  else md ! i ! j)"
      by simp
  qed
  from 1 2 3 show ?thesis by blast
qed

lemma land_passes_cells:
  assumes "shape lm = replicate ny nx" "shape u = replicate ny nx" "shape md = replicate ny nx"
  shows "\<exists>md'. fold (vicinity_pass lm fill u (2 * R + 1)) [True, False] (Inr md) = Inr md'
           \<and> shape md' = replicate ny nx
           \<and> (\<forall>i < ny. \<forall>j < nx. md' ! i ! j =
                 Max ((\<lambda>(k, l). if lm ! k ! l \<noteq> lm ! i ! j then - fill else u ! k ! l)
                        ` vicinity ny nx (nat R) i j))"
proof -
  from vicinity_pass_cells [OF assms, of fill R True] obtain m1 where m1:
    "vicinity_pass lm fill u (2 * R + 1) True (Inr md) = Inr m1" "shape m1 = replicate ny nx"
    "\<forall>i < ny. \<forall>j < nx. m1 ! i ! j =
         (if lm ! i ! j = True
          then Max ((\<lambda>(k, l). if lm ! k ! l \<noteq> True then - fill else u ! k ! l)
                      ` vicinity ny nx (nat R) i j)
          else md ! i ! j)"
    by blast
  from vicinity_pass_cells [OF assms(1,2) m1(2), of fill R False] obtain m2 where m2:
    "vicinity_pass lm fill u (2 * R + 1) False (Inr m1) = Inr m2" "shape m2 = replicate ny nx"
    "\<forall>i < ny. \<forall>j < nx. m2 ! i ! j =
         (if lm ! i ! j = False
          then Max ((\<lambda>(k, l). if lm ! k ! l \<noteq> False then - fill else u ! k ! l)
                      ` vicinity ny nx (nat R) i j)
          else m1 ! i ! j)"
    by blast
  have 1: "fold (vicinity_pass lm fill u (2 * R + 1)) [True, False] (Inr md) = Inr m2"
    by (simp add: m1(1) m2(1))
  have 3: "\<forall>i < ny. \<forall>j < nx. m2 ! i ! j =
                 Max ((\<lambda>(k, l). if lm ! k ! l \<noteq> lm ! i ! j then - fill else u ! k ! l)
                        ` vicinity ny nx (nat R) i j)"
  proof (intro allI impI)
    fix i j assume ij: "i < ny" "j < nx"
    show "m2 ! i ! j = Max ((\<lambda>(k, l). if lm ! k ! l \<noteq> lm ! i ! j then - fill else u ! k ! l)
                        ` vicinity ny nx (nat R) i j)"
    proof (cases "lm ! i ! j")
      case True
      with m1(3) m2(3) ij show ?thesis by simp
    next
      case False
      with m2(3) ij show ?thesis by simp
    qed
  qed
  from 1 m2(2) 3 show ?thesis by blast
qed

lemma filtered_cells:
  fixes fill :: "'a::{linorder,uminus}" and c :: "('a masked2d, 'm) cube_scheme"
  assumes sh: "shape (data c) = replicate ny nx"
    and lm: "\<forall>lm. land_mask self = Some lm \<longrightarrow> shape lm = replicate ny nx"
  defines "u \<equiv> (if is_masked (data c)
                 then map2d (\<lambda>(v, m). if m then - fill else v) (data c)
                 else map2d fst (data c))"
  shows "\<exists>md. (case land_mask self of
                  Some lm \<Rightarrow> fold (vicinity_pass lm fill u (2 * R + 1)) [True, False]
                               (Inr (np_empty_like junk (data c)))
                | None \<Rightarrow> Inr (maximum_filter u (2 * R + 1))) = Inr md
           \<and> shape md = replicate ny nx
           \<and> (\<forall>i < ny. \<forall>j < nx.
                 md ! i ! j = Max (window_value fill (land_mask self) (data c) i j ` vicinity ny nx (nat R) i j))"
proof -
  have su: "shape u = replicate ny nx"
    unfolding u_def using sh by (simp only: unmasked_cube_data_shape)
  have ucell: "u ! k ! l = (if snd (data c ! k ! l) then - fill else fst (data c ! k ! l))"
    if "k < ny" "l < nx" for k l
    unfolding u_def using sh that by (rule unmasked_cube_data_cell)
  show ?thesis
  proof (cases "land_mask self")
    case None
    from maximum_filter_cells [OF su, of R] obtain m where m:
      "maximum_filter u (2 * R + 1) = m" "shape m = replicate ny nx"
      "\<forall>i < ny. \<forall>j < nx. m ! i ! j = Max ((\<lambda>(k, l). u ! k ! l) ` vicinity ny nx (nat R) i j)"
      by blast
    have img: "(\<lambda>(k, l). u ! k ! l) ` vicinity ny nx (nat R) i j
        = window_value fill None (data c) i j ` vicinity ny nx (nat R) i j" for i j
    proof (rule image_cong [OF refl])
      fix x assume x: "x \<in> vicinity ny nx (nat R) i j"
      obtain k l where kl: "x = (k, l)" by (cases x)
      from x have "k < ny" "l < nx" unfolding kl by (simp_all add: vicinity_def)
      then show "(case x of (k, l) \<Rightarrow> u ! k ! l) = window_value fill None (data c) i j x"
        unfolding kl by (simp add: window_value_def ucell)
    qed
    from m img None show ?thesis by simp
  next
    case (Some lm)
    with lm have sl: "shape lm = replicate ny nx" by simp
    have se: "shape (np_empty_like junk (data c)) = replicate ny nx"
      using sh by simp
    from land_passes_cells [OF sl su se, of fill R] obtain m where m:
      "fold (vicinity_pass lm fill u (2 * R + 1)) [True, False] (Inr (np_empty_like junk (data c))) = Inr m"
      "shape m = replicate ny nx"
      "\<forall>i < ny. \<forall>j < nx. m ! i ! j =
          Max ((\<lambda>(k, l). if lm ! k ! l \<noteq> lm ! i ! j then - fill else u ! k ! l)
                 ` vicinity ny nx (nat R) i j)"
      by blast
    have img: "(\<lambda>(k, l). if lm ! k ! l \<noteq> lm ! i ! j then - fill else u ! k ! l) ` vicinity ny nx (nat R) i j
        = window_value fill (Some lm) (data c) i j ` vicinity ny nx (nat R) i j" for i j
    proof (rule image_cong [OF refl])
      fix x assume x: "x \<in> vicinity ny nx (nat R) i j"
      obtain k l where kl: "x = (k, l)" by (cases x)
      from x have "k < ny" "l < nx" unfolding kl by (simp_all add: vicinity_def)
      then show "(case x of (k, l) \<Rightarrow> if lm ! k ! l \<noteq> lm ! i ! j then - fill else u ! k ! l)
          = window_value fill (Some lm) (data c) i j x"
        unfolding kl by (simp add: window_value_def ucell)
    qed
    from m img Some show ?thesis by simp
  qed
qed

lemma maximum_within_vicinity_cells:
  assumes rg: "resolve_grid_point_radius conv self c = Inr R"
    and sh: "shape (data c) = replicate ny nx"
    and lm: "\<forall>lm. land_mask self = Some lm \<longrightarrow> shape lm = replicate ny nx"
  shows "\<exists>out. maximum_within_vicinity conv self fill junk c = Inr out
           \<and> shape (data out) = replicate ny nx
           \<and> (\<forall>i < ny. \<forall>j < nx.
                 data out ! i ! j =
                   (if snd (data c ! i ! j) then data c ! i ! j
                    else (Max (window_value fill (land_mask self) (data c) i j ` vicinity ny nx (nat R) i j),
                          False)))"
proof -
  let ?u = "(if is_masked (data c)
             then map2d (\<lambda>(v, m). if m then - fill else v) (data c)
             else map2d fst (data c))"
  from filtered_cells [OF sh lm, of fill R junk] obtain md where md:
    "(case land_mask self of
        Some lm \<Rightarrow> fold (vicinity_pass lm fill ?u (2 * R + 1)) [True, False]
                     (Inr (np_empty_like junk (data c)))
      | None \<Rightarrow> Inr (maximum_filter ?u (2 * R + 1))) = Inr md"
    "shape md = replicate ny nx"
    "\<forall>i < ny. \<forall>j < nx.
        md ! i ! j = Max (window_value fill (land_mask self) (data c) i j ` vicinity ny nx (nat R) i j)"
    by blast
  let ?res = "(if is_masked (data c)
               then map2d (\<lambda>((v, m), x). (if m then v else x, m)) (zip2d (data c) md)
               else map2d (\<lambda>x. (x, False)) md)"
  have 1: "maximum_within_vicinity conv self fill junk c = Inr (c\<lparr>data := ?res\<rparr>)"
    unfolding maximum_within_vicinity_def rg Let_def using md(1) by simp
  have 2: "shape ?res = replicate ny nx"
    using sh md(2) by simp
  have 3: "?res ! i ! j = (if snd (data c ! i ! j) then data c ! i ! j else (md ! i ! j, False))"
    if ij: "i < ny" "j < nx" for i j
  proof -
    from sh md(2) ij have len: "i < length (data c)" "j < length (data c ! i)"
      "i < length md" "j < length (md ! i)"
      by (simp_all add: shape_replicate_iff)
    show ?thesis
    proof (cases "is_masked (data c)")
      case True
      have sz: "shape (zip2d (data c) md) = replicate ny nx" using sh md(2) by simp
      with ij have "i < length (zip2d (data c) md)" "j < length (zip2d (data c) md ! i)"
        by (simp_all add: shape_replicate_iff)
      with True len show ?thesis
        by (cases "data c ! i ! j") (simp add: nth_map2d nth_zip2d)
    next
      case False
      with len not_is_masked_cell [OF False len(1,2)] show ?thesis
        by (simp add: nth_map2d)
    qed
  qed
  from 1 2 3 md(3) show ?thesis by simp
qed

subsection \<open>The claims about the vicinity maximum\<close>

lemma Max_image_restrict:
  fixes f g :: "'b \<Rightarrow> 'a::linorder"
  assumes fin: "finite V" and x0: "x0 \<in> S" and sub: "S \<subseteq> V"
    and same: "\<And>x. x \<in> S \<Longrightarrow> f x = g x"
    and low: "\<And>x. x \<in> V \<Longrightarrow> x \<notin> S \<Longrightarrow> f x \<le> g x0"
  shows "Max (f ` V) = Max (g ` S)"
proof (rule Max_eqI)
  from fin show "finite (f ` V)" by simp
  from fin sub have finS: "finite S" by (rule rev_finite_subset)
  have top: "g x0 \<le> Max (g ` S)" using finS x0 by simp
  show "y \<le> Max (g ` S)" if "y \<in> f ` V" for y
  proof -
    from that obtain x where x: "x \<in> V" "y = f x" by blast
    show ?thesis
    proof (cases "x \<in> S")
      case True
      with same x finS show ?thesis by simp
    next
      case False
      with low x top show ?thesis by force
    qed
  qed
  from finS x0 have "Max (g ` S) \<in> g ` S" by (intro Max_in) auto
  then obtain x where "x \<in> S" "Max (g ` S) = g x" by blast
  with same sub show "Max (g ` S) \<in> f ` V" by force
qed

lemma window_value_self:
  "\<not> snd (d ! i ! j) \<Longrightarrow> window_value fill lmo d i j (i, j) = fst (d ! i ! j)"
  by (simp add: window_value_def split: option.splits)

subsection \<open>The example slices, evaluated\<close>

lemma land_example:
  "land_mask with_land = Some [[True, True, False, False], [True, True, False, False],
                               [True, True, False, False], [True, True, False, False]]"
  by (simp add: land_mask_def with_land_def half_land_def map2d_def)

lemma land_example_shape: "\<forall>lm. land_mask with_land = Some lm \<longrightarrow> shape lm = replicate 4 4"
  by (simp add: land_example shape_def eval_nat_numeral)

lemma no_land_shape: "\<forall>lm. land_mask without_land = Some lm \<longrightarrow> shape lm = replicate ny nx"
  by (simp add: land_mask_def without_land_def)

lemma no_radius_shape: "\<forall>lm. land_mask no_radius = Some lm \<longrightarrow> shape lm = replicate 4 4"
  by (simp add: land_mask_def no_radius_def half_land_def map2d_def shape_def eval_nat_numeral)

lemma radius_example: "resolve_grid_point_radius conv with_land c = Inr 1"
  by (simp add: resolve_grid_point_radius_def with_land_def)

lemma radius_example_no_land: "resolve_grid_point_radius conv without_land c = Inr 1"
  by (simp add: resolve_grid_point_radius_def without_land_def)

lemma hot_sea_cell_shape: "shape (data hot_sea_cell) = replicate 4 4"
  by (simp add: hot_sea_cell_def shape_def map2d_def eval_nat_numeral)

lemma masked_slice_shape: "shape (data masked_slice) = replicate 4 4"
  by (simp add: masked_slice_def shape_def eval_nat_numeral)

lemma hot_sea_cell_with_land:
  "maximum_within_vicinity metres_already with_land fillval_f4 (\<lambda>i j. 0) hot_sea_cell
     = Inr (hot_sea_cell\<lparr>data := map2d (\<lambda>v. (v, False))
              [[0, 0, 1, 1], [0, 0, 1, 1], [0, 0, 1, 1], [0, 0, 0, 0]]\<rparr>)"
  by code_simp

lemma hot_sea_cell_without_land:
  "maximum_within_vicinity metres_already without_land fillval_f4 (\<lambda>i j. 0) hot_sea_cell
     = Inr (hot_sea_cell\<lparr>data := map2d (\<lambda>v. (v, False))
              [[0, 1, 1, 1], [0, 1, 1, 1], [0, 1, 1, 1], [0, 0, 0, 0]]\<rparr>)"
  by code_simp

lemma masked_slice_with_land:
  "maximum_within_vicinity metres_already with_land fillval_f4 (\<lambda>i j. 0) masked_slice
     = Inr (masked_slice\<lparr>data :=
              [[(5, True), (0, False), (1, False), (1, False)],
               [(1 / 2, False), (1 / 2, False), (1, False), (1, False)],
               [(1 / 2, False), (1 / 2, False), (1, False), (1, False)],
               [(1 / 2, False), (1 / 2, False), (0, False), (0, False)]]\<rparr>)"
  by code_simp

lemma masked_slice_no_radius:
  "maximum_within_vicinity metres_already no_radius fillval_f4 (\<lambda>i j. 0) masked_slice = Inr masked_slice"
  by code_simp

lemma negative_radius_shape: "\<forall>lm. land_mask negative_radius = Some lm \<longrightarrow> shape lm = replicate 4 4"
  by (simp add: land_mask_def negative_radius_def half_land_def map2d_def shape_def eval_nat_numeral)

lemma radius_example_negative: "resolve_grid_point_radius conv negative_radius c = Inr (- 1)"
  by (simp add: resolve_grid_point_radius_def negative_radius_def)

lemma masked_slice_negative_radius:
  "maximum_within_vicinity metres_already negative_radius fillval_f4 (\<lambda>i j. 0) masked_slice
     = Inr masked_slice"
  by code_simp

lemma hot_sea_cell_i4_with_land:
  "maximum_within_vicinity metres_already with_land fillval_i4 stale_zeros hot_sea_cell_i4
     = Inr (hot_sea_cell_i4\<lparr>data :=
              [[(0, False), (2147483647, False), (2147483647, False), (1, False)],
               [(0, False), (2147483647, False), (2147483647, False), (1, False)],
               [(0, False), (2147483647, False), (2147483647, False), (1, False)],
               [(0, False), (2147483647, False), (2147483647, False), (0, False)]]\<rparr>)"
  by code_simp

text \<open>
  C9. On a rectangular slice, with a radius that resolves to any number \<open>R\<close> of grid
  points, negative numbers included, and, when a land mask is configured, a land mask of
  the shape of the slice, \<open>maximum_within_vicinity\<close> returns, and every cell that was not
  masked in the input is not masked in the output and holds a value greater than or equal
  to its input value. The window holds the cell itself, so the sentinel
  \<open>- cube_fill_value\<close> that stands for the masked cells and the cells of the other category
  cannot bring the maximum below the value of the cell, whatever the fill value is.
\<close>

theorem vicinity_maximum_extensive:
  fixes fill :: "'a::{linorder,uminus}"
  assumes "resolve_grid_point_radius conv self c = Inr R"
    and "shape (data c) = replicate ny nx"
    and "\<forall>lm. land_mask self = Some lm \<longrightarrow> shape lm = replicate ny nx"
  shows "\<exists>out. maximum_within_vicinity conv self fill junk c = Inr out
           \<and> (\<forall>i < ny. \<forall>j < nx. \<not> snd (data c ! i ! j) \<longrightarrow>
                  \<not> snd (data out ! i ! j) \<and> fst (data c ! i ! j) \<le> fst (data out ! i ! j))"
proof -
  from maximum_within_vicinity_cells [OF assms, of fill junk] obtain out where out:
    "maximum_within_vicinity conv self fill junk c = Inr out"
    "\<forall>i < ny. \<forall>j < nx.
        data out ! i ! j =
          (if snd (data c ! i ! j) then data c ! i ! j
           else (Max (window_value fill (land_mask self) (data c) i j ` vicinity ny nx (nat R) i j),
                 False))"
    by blast
  have "\<not> snd (data out ! i ! j) \<and> fst (data c ! i ! j) \<le> fst (data out ! i ! j)"
    if ij: "i < ny" "j < nx" and un: "\<not> snd (data c ! i ! j)" for i j
  proof -
    let ?W = "window_value fill (land_mask self) (data c) i j ` vicinity ny nx (nat R) i j"
    from out(2) ij un have o: "data out ! i ! j = (Max ?W, False)" by simp
    from ij have "window_value fill (land_mask self) (data c) i j (i, j) \<in> ?W"
      by (intro imageI self_in_vicinity)
    then have "fst (data c ! i ! j) \<in> ?W" by (simp add: window_value_self [OF un])
    then have "fst (data c ! i ! j) \<le> Max ?W" by (intro Max_ge) simp_all
    with o show ?thesis by simp
  qed
  with out(1) show ?thesis by blast
qed

theorem vicinity_maximum_extensive_witness:
  "(\<exists>out. maximum_within_vicinity metres_already with_land fillval_f4 (\<lambda>i j. 0) masked_slice = Inr out
      \<and> data out ! 2 ! 0 = (1 / 2, False)
      \<and> \<not> snd (data out ! 2 ! 0)
      \<and> fst (data masked_slice ! 2 ! 0) \<le> fst (data out ! 2 ! 0))
   \<and> (\<exists>out. maximum_within_vicinity metres_already negative_radius fillval_f4 (\<lambda>i j. 0) masked_slice = Inr out
      \<and> data out ! 2 ! 1 = (1 / 2, False)
      \<and> \<not> snd (data out ! 2 ! 1)
      \<and> fst (data masked_slice ! 2 ! 1) \<le> fst (data out ! 2 ! 1))"
proof -
  from vicinity_maximum_extensive
    [OF radius_example masked_slice_shape land_example_shape,
      of metres_already fillval_f4 "\<lambda>i j. 0"]
  obtain out where out:
    "maximum_within_vicinity metres_already with_land fillval_f4 (\<lambda>i j. 0) masked_slice = Inr out"
    "\<forall>i < 4. \<forall>j < 4. \<not> snd (data masked_slice ! i ! j) \<longrightarrow>
        \<not> snd (data out ! i ! j) \<and> fst (data masked_slice ! i ! j) \<le> fst (data out ! i ! j)"
    by auto
  have un: "\<not> snd (data masked_slice ! 2 ! 0)" by (simp add: masked_slice_def)
  from out(2) un have "\<not> snd (data out ! 2 ! 0) \<and> fst (data masked_slice ! 2 ! 0) \<le> fst (data out ! 2 ! 0)"
    by simp
  moreover from out(1) have "data out ! 2 ! 0 = (1 / 2, False)"
    unfolding masked_slice_with_land by auto
  ultimately have 1: "\<exists>out. maximum_within_vicinity metres_already with_land fillval_f4 (\<lambda>i j. 0) masked_slice = Inr out
      \<and> data out ! 2 ! 0 = (1 / 2, False)
      \<and> \<not> snd (data out ! 2 ! 0)
      \<and> fst (data masked_slice ! 2 ! 0) \<le> fst (data out ! 2 ! 0)"
    using out(1) by blast
  from vicinity_maximum_extensive
    [OF radius_example_negative masked_slice_shape negative_radius_shape,
      of metres_already fillval_f4 "\<lambda>i j. 0"]
  obtain out' where out':
    "maximum_within_vicinity metres_already negative_radius fillval_f4 (\<lambda>i j. 0) masked_slice = Inr out'"
    "\<forall>i < 4. \<forall>j < 4. \<not> snd (data masked_slice ! i ! j) \<longrightarrow>
        \<not> snd (data out' ! i ! j) \<and> fst (data masked_slice ! i ! j) \<le> fst (data out' ! i ! j)"
    by auto
  have un': "\<not> snd (data masked_slice ! 2 ! 1)" by (simp add: masked_slice_def)
  from out'(2) un' have "\<not> snd (data out' ! 2 ! 1) \<and> fst (data masked_slice ! 2 ! 1) \<le> fst (data out' ! 2 ! 1)"
    by simp
  moreover from out'(1) have "data out' ! 2 ! 1 = (1 / 2, False)"
    unfolding masked_slice_negative_radius by (auto simp: masked_slice_def)
  ultimately have 2: "\<exists>out. maximum_within_vicinity metres_already negative_radius fillval_f4 (\<lambda>i j. 0) masked_slice = Inr out
      \<and> data out ! 2 ! 1 = (1 / 2, False)
      \<and> \<not> snd (data out ! 2 ! 1)
      \<and> fst (data masked_slice ! 2 ! 1) \<le> fst (data out ! 2 ! 1)"
    using out'(1) by blast
  from 1 2 show ?thesis by (rule conjI)
qed

text \<open>
  C9 as it was stated fails where it says that the sentinel is smaller than every
  legitimate value. For the field of 4-byte signed integers the fill value is negative,
  the sentinel \<open>- cube_fill_value\<close> is \<open>2147483647\<close>, above the value 1 of the hot sea cell,
  and the land cell \<open>(1, 1)\<close>, whose window holds 0 in every land cell, comes out as the
  sentinel, which stands for the sea cells of its window.
\<close>

theorem sentinel_below_values_counterexample:
  "- fillval_i4 = 2147483647
   \<and> fst (data hot_sea_cell_i4 ! 1 ! 2) = 1
   \<and> fst (data hot_sea_cell_i4 ! 1 ! 2) < - fillval_i4
   \<and> fst (data hot_sea_cell_i4 ! 1 ! 1) = 0
   \<and> \<not> isl (maximum_within_vicinity metres_already with_land fillval_i4 stale_zeros hot_sea_cell_i4)
   \<and> data (projr (maximum_within_vicinity metres_already with_land fillval_i4 stale_zeros hot_sea_cell_i4))
       ! 1 ! 1 = (- fillval_i4, False)"
  unfolding hot_sea_cell_i4_with_land
  by (simp add: hot_sea_cell_i4_def fillval_i4_def)

text \<open>
  C7. When the radius resolves to 0 grid points, which it does in particular when neither
  a radius nor a grid point radius is configured, \<open>maximum_within_vicinity\<close> on a
  rectangular slice (with a land mask of its shape, if one is configured) returns, and
  every cell that was not masked in the input is left as it was.
\<close>

theorem zero_radius_identity:
  fixes fill :: "'a::{linorder,uminus}"
  assumes "resolve_grid_point_radius conv self c = Inr 0
            \<or> (radius self = None \<and> grid_point_radius self = None)"
    and "shape (data c) = replicate ny nx"
    and "\<forall>lm. land_mask self = Some lm \<longrightarrow> shape lm = replicate ny nx"
  shows "\<exists>out. maximum_within_vicinity conv self fill junk c = Inr out
           \<and> (\<forall>i < ny. \<forall>j < nx. \<not> snd (data c ! i ! j) \<longrightarrow> data out ! i ! j = data c ! i ! j)"
proof -
  from assms(1) have rg: "resolve_grid_point_radius conv self c = Inr 0"
    by (auto simp: resolve_grid_point_radius_def)
  from maximum_within_vicinity_cells [OF rg assms(2,3), of fill junk] obtain out where out:
    "maximum_within_vicinity conv self fill junk c = Inr out"
    "\<forall>i < ny. \<forall>j < nx.
        data out ! i ! j =
          (if snd (data c ! i ! j) then data c ! i ! j
           else (Max (window_value fill (land_mask self) (data c) i j ` vicinity ny nx (nat 0) i j),
                 False))"
    by auto
  have "data out ! i ! j = data c ! i ! j"
    if ij: "i < ny" "j < nx" and un: "\<not> snd (data c ! i ! j)" for i j
  proof -
    from out(2) ij un have "data out ! i ! j = (fst (data c ! i ! j), False)"
      by (simp add: vicinity_zero window_value_self)
    with un show ?thesis by (cases "data c ! i ! j") simp
  qed
  with out(1) show ?thesis by blast
qed

theorem zero_radius_identity_witness:
  "\<exists>out. maximum_within_vicinity metres_already no_radius fillval_f4 (\<lambda>i j. 0) masked_slice = Inr out
     \<and> data out ! 1 ! 2 = (1, False) \<and> data out ! 1 ! 2 = data masked_slice ! 1 ! 2"
proof -
  have r: "resolve_grid_point_radius metres_already no_radius masked_slice = Inr 0
            \<or> (radius no_radius = None \<and> grid_point_radius no_radius = None)"
    by (simp add: no_radius_def)
  from zero_radius_identity [OF r masked_slice_shape no_radius_shape, of fillval_f4 "\<lambda>i j. 0"]
  obtain out where out:
    "maximum_within_vicinity metres_already no_radius fillval_f4 (\<lambda>i j. 0) masked_slice = Inr out"
    "\<forall>i < 4. \<forall>j < 4. \<not> snd (data masked_slice ! i ! j) \<longrightarrow> data out ! i ! j = data masked_slice ! i ! j"
    by auto
  have un: "data masked_slice ! 1 ! 2 = (1, False)" by (simp add: masked_slice_def)
  with out(2) have "data out ! 1 ! 2 = data masked_slice ! 1 ! 2" by simp
  with un out(1) show ?thesis by auto
qed

subsection \<open>Land and sea\<close>

text \<open>
  On a rectangular slice, with a radius that resolves to any number \<open>R\<close> of grid points,
  \<open>maximum_within_vicinity\<close> returns, and at every cell \<open>(i, j)\<close> that is not masked:
  with a land mask (of the shape of the slice) the value is the maximum over the window
  in which every cell of the other category and every masked cell counts as the sentinel
  \<open>- cube_fill_value\<close>; when the sentinel is not above the value of the cell itself, that
  is the maximum of the values of the unmasked cells of its own category in the window.
  Without a land mask the value is the maximum over the window with masked cells counting
  as the sentinel, which for a slice without masked cells is the maximum of the values
  of all cells in the window.
\<close>

lemma land_sea_separation:
  fixes fill :: "'a::{linorder,uminus}"
  assumes "resolve_grid_point_radius conv self c = Inr R"
    and "shape (data c) = replicate ny nx"
    and "\<forall>lm. land_mask self = Some lm \<longrightarrow> shape lm = replicate ny nx"
  shows "\<exists>out. maximum_within_vicinity conv self fill junk c = Inr out
    \<and> (\<forall>i < ny. \<forall>j < nx. \<not> snd (data c ! i ! j) \<longrightarrow>
         (case land_mask self of
            Some lm \<Rightarrow>
              fst (data out ! i ! j)
                = Max ((\<lambda>(k, l). if lm ! k ! l = lm ! i ! j \<and> \<not> snd (data c ! k ! l)
                                  then fst (data c ! k ! l) else - fill)
                        ` vicinity ny nx (nat R) i j)
              \<and> (- fill \<le> fst (data c ! i ! j) \<longrightarrow>
                   fst (data out ! i ! j)
                     = Max {fst (data c ! k ! l) | k l.
                             (k, l) \<in> vicinity ny nx (nat R) i j
                             \<and> lm ! k ! l = lm ! i ! j \<and> \<not> snd (data c ! k ! l)})
          | None \<Rightarrow>
              fst (data out ! i ! j)
                = Max ((\<lambda>(k, l). if snd (data c ! k ! l) then - fill else fst (data c ! k ! l))
                        ` vicinity ny nx (nat R) i j)
              \<and> (\<not> is_masked (data c) \<longrightarrow>
                   fst (data out ! i ! j)
                     = Max {fst (data c ! k ! l) | k l. (k, l) \<in> vicinity ny nx (nat R) i j})))"
proof -
  let ?d = "data c"
  from maximum_within_vicinity_cells [OF assms, of fill junk] obtain out where out:
    "maximum_within_vicinity conv self fill junk c = Inr out"
    "\<forall>i < ny. \<forall>j < nx.
        data out ! i ! j =
          (if snd (?d ! i ! j) then ?d ! i ! j
           else (Max (window_value fill (land_mask self) ?d i j ` vicinity ny nx (nat R) i j),
                 False))"
    by blast
  have cell: "(case land_mask self of
            Some lm \<Rightarrow>
              fst (data out ! i ! j)
                = Max ((\<lambda>(k, l). if lm ! k ! l = lm ! i ! j \<and> \<not> snd (?d ! k ! l)
                                  then fst (?d ! k ! l) else - fill)
                        ` vicinity ny nx (nat R) i j)
              \<and> (- fill \<le> fst (?d ! i ! j) \<longrightarrow>
                   fst (data out ! i ! j)
                     = Max {fst (?d ! k ! l) | k l.
                             (k, l) \<in> vicinity ny nx (nat R) i j
                             \<and> lm ! k ! l = lm ! i ! j \<and> \<not> snd (?d ! k ! l)})
          | None \<Rightarrow>
              fst (data out ! i ! j)
                = Max ((\<lambda>(k, l). if snd (?d ! k ! l) then - fill else fst (?d ! k ! l))
                        ` vicinity ny nx (nat R) i j)
              \<and> (\<not> is_masked ?d \<longrightarrow>
                   fst (data out ! i ! j)
                     = Max {fst (?d ! k ! l) | k l. (k, l) \<in> vicinity ny nx (nat R) i j}))"
    if ij: "i < ny" "j < nx" and un: "\<not> snd (?d ! i ! j)" for i j
  proof -
    let ?V = "vicinity ny nx (nat R) i j"
    let ?g = "\<lambda>(k, l). fst (?d ! k ! l)"
    from out(2) ij un have o: "fst (data out ! i ! j) = Max (window_value fill (land_mask self) ?d i j ` ?V)"
      by simp
    from ij have self: "(i, j) \<in> ?V" by (rule self_in_vicinity)
    show ?thesis
    proof (cases "land_mask self")
      case None
      have w: "window_value fill None ?d i j
          = (\<lambda>(k, l). if snd (?d ! k ! l) then - fill else fst (?d ! k ! l))"
        by (rule ext) (simp add: window_value_def split_beta)
      have 1: "fst (data out ! i ! j)
          = Max ((\<lambda>(k, l). if snd (?d ! k ! l) then - fill else fst (?d ! k ! l)) ` ?V)"
        using o unfolding None w .
      have 2: "fst (data out ! i ! j) = Max {fst (?d ! k ! l) | k l. (k, l) \<in> ?V}"
        if nm: "\<not> is_masked ?d"
      proof -
        have "window_value fill None ?d i j ` ?V = ?g ` ?V"
        proof (rule image_cong [OF refl])
          fix x assume x: "x \<in> ?V"
          obtain k l where kl: "x = (k, l)" by (cases x)
          from x assms(2) have "k < length ?d" "l < length (?d ! k)"
            unfolding kl by (simp_all add: vicinity_def shape_replicate_iff)
          from not_is_masked_cell [OF nm this]
          show "window_value fill None ?d i j x = ?g x"
            unfolding kl by (simp add: window_value_def)
        qed
        moreover have "?g ` ?V = {fst (?d ! k ! l) | k l. (k, l) \<in> ?V}"
          by (auto simp: image_iff)
        ultimately show ?thesis using o None by simp
      qed
      from 1 2 None show ?thesis by simp
    next
      case (Some lm)
      let ?S = "{(k, l). (k, l) \<in> ?V \<and> lm ! k ! l = lm ! i ! j \<and> \<not> snd (?d ! k ! l)}"
      have w: "window_value fill (Some lm) ?d i j
          = (\<lambda>(k, l). if lm ! k ! l = lm ! i ! j \<and> \<not> snd (?d ! k ! l)
                       then fst (?d ! k ! l) else - fill)"
        by (rule ext) (auto simp: window_value_def split_beta)
      have 1: "fst (data out ! i ! j)
          = Max ((\<lambda>(k, l). if lm ! k ! l = lm ! i ! j \<and> \<not> snd (?d ! k ! l)
                           then fst (?d ! k ! l) else - fill) ` ?V)"
        using o unfolding Some w .
      have 2: "fst (data out ! i ! j)
          = Max {fst (?d ! k ! l) | k l. (k, l) \<in> ?V \<and> lm ! k ! l = lm ! i ! j \<and> \<not> snd (?d ! k ! l)}"
        if low: "- fill \<le> fst (?d ! i ! j)"
      proof -
        have "Max (window_value fill (Some lm) ?d i j ` ?V) = Max (?g ` ?S)"
        proof (rule Max_image_restrict [where ?x0.0 = "(i, j)"])
          show "finite ?V" by simp
          show "(i, j) \<in> ?S" using self un by simp
          show "?S \<subseteq> ?V" by auto
          show "window_value fill (Some lm) ?d i j x = ?g x" if "x \<in> ?S" for x
            using that by (auto simp: window_value_def)
          show "window_value fill (Some lm) ?d i j x \<le> ?g (i, j)" if "x \<in> ?V" "x \<notin> ?S" for x
          proof -
            obtain k l where kl: "x = (k, l)" by (cases x)
            from that have "snd (?d ! k ! l) \<or> lm ! k ! l \<noteq> lm ! i ! j"
              unfolding kl by blast
            then have "window_value fill (Some lm) ?d i j x = - fill"
              unfolding kl window_value_def by simp
            with low show ?thesis by simp
          qed
        qed
        moreover have "?g ` ?S
            = {fst (?d ! k ! l) | k l. (k, l) \<in> ?V \<and> lm ! k ! l = lm ! i ! j \<and> \<not> snd (?d ! k ! l)}"
          by (auto simp: image_iff)
        ultimately show ?thesis using o Some by simp
      qed
      from 1 2 Some show ?thesis by simp
    qed
  qed
  with out(1) show ?thesis by blast
qed

text \<open>
  The slice with the hot sea cell, as floating-point data: with the land mask the land
  cell \<open>(1, 1)\<close> keeps 0, the maximum over the land cells of its window; without a land
  mask it takes the 1 of the hot cell.
\<close>

lemma hot_sea_cell_stays_at_sea:
  "\<exists>o1 o2.
     maximum_within_vicinity metres_already with_land fillval_f4 (\<lambda>i j. 0) hot_sea_cell = Inr o1
     \<and> maximum_within_vicinity metres_already without_land fillval_f4 (\<lambda>i j. 0) hot_sea_cell = Inr o2
     \<and> fst (data o1 ! 1 ! 1) = 0 \<and> fst (data o2 ! 1 ! 1) = 1
     \<and> Max {fst (data hot_sea_cell ! k ! l) | k l.
              (k, l) \<in> vicinity 4 4 1 1 1
              \<and> [[True, True, False, False], [True, True, False, False],
                  [True, True, False, False], [True, True, False, False]] ! k ! l
              \<and> \<not> snd (data hot_sea_cell ! k ! l)} = 0
     \<and> Max {fst (data hot_sea_cell ! k ! l) | k l. (k, l) \<in> vicinity 4 4 1 1 1} = 1"
proof -
  let ?lm = "[[True, True, False, False], [True, True, False, False],
              [True, True, False, False], [True, True, False, False]]"
  have un: "\<not> snd (data hot_sea_cell ! 1 ! 1)" "\<not> is_masked (data hot_sea_cell)"
    "- fillval_f4 \<le> fst (data hot_sea_cell ! 1 ! 1)" "?lm ! 1 ! 1"
    by (simp_all add: hot_sea_cell_def map2d_def is_masked_def fillval_f4_def)
  from land_sea_separation
    [OF radius_example hot_sea_cell_shape land_example_shape,
      of metres_already fillval_f4 "\<lambda>i j. 0"]
  obtain o1 where o1:
    "maximum_within_vicinity metres_already with_land fillval_f4 (\<lambda>i j. 0) hot_sea_cell = Inr o1"
    and p1: "\<forall>i < 4. \<forall>j < 4. \<not> snd (data hot_sea_cell ! i ! j) \<longrightarrow>
       fst (data o1 ! i ! j)
         = Max ((\<lambda>(k, l). if ?lm ! k ! l = ?lm ! i ! j \<and> \<not> snd (data hot_sea_cell ! k ! l)
                           then fst (data hot_sea_cell ! k ! l) else - fillval_f4)
                 ` vicinity 4 4 (nat 1) i j)
       \<and> (- fillval_f4 \<le> fst (data hot_sea_cell ! i ! j) \<longrightarrow>
            fst (data o1 ! i ! j)
              = Max {fst (data hot_sea_cell ! k ! l) | k l.
                      (k, l) \<in> vicinity 4 4 (nat 1) i j
                      \<and> ?lm ! k ! l = ?lm ! i ! j \<and> \<not> snd (data hot_sea_cell ! k ! l)})"
    unfolding land_example option.case by blast
  from land_sea_separation
    [OF radius_example_no_land hot_sea_cell_shape no_land_shape,
      of metres_already fillval_f4 "\<lambda>i j. 0"]
  obtain o2 where o2:
    "maximum_within_vicinity metres_already without_land fillval_f4 (\<lambda>i j. 0) hot_sea_cell = Inr o2"
    and p2: "\<forall>i < 4. \<forall>j < 4. \<not> snd (data hot_sea_cell ! i ! j) \<longrightarrow>
       (case land_mask without_land of
          Some lm \<Rightarrow> True
        | None \<Rightarrow>
            (\<not> is_masked (data hot_sea_cell) \<longrightarrow>
               fst (data o2 ! i ! j)
                 = Max {fst (data hot_sea_cell ! k ! l) | k l. (k, l) \<in> vicinity 4 4 (nat 1) i j}))"
    by (auto simp: land_mask_def without_land_def)
  have l1: "(1::nat) < 4" by simp
  from p1 [rule_format, OF l1 l1 un(1)] un(3,4)
  have m1: "fst (data o1 ! 1 ! 1)
      = Max {fst (data hot_sea_cell ! k ! l) | k l.
              (k, l) \<in> vicinity 4 4 1 1 1 \<and> ?lm ! k ! l \<and> \<not> snd (data hot_sea_cell ! k ! l)}"
    by simp
  from p2 [rule_format, OF l1 l1 un(1)] un(2)
  have m2: "fst (data o2 ! 1 ! 1)
      = Max {fst (data hot_sea_cell ! k ! l) | k l. (k, l) \<in> vicinity 4 4 1 1 1}"
    by (simp add: land_mask_def without_land_def)
  from o1 have v1: "fst (data o1 ! 1 ! 1) = 0"
    unfolding hot_sea_cell_with_land by (auto simp: map2d_def)
  from o2 have v2: "fst (data o2 ! 1 ! 1) = 1"
    unfolding hot_sea_cell_without_land by (auto simp: map2d_def)
  from m1 m2 v1 v2 have
    "Max {fst (data hot_sea_cell ! k ! l) | k l.
              (k, l) \<in> vicinity 4 4 1 1 1 \<and> ?lm ! k ! l \<and> \<not> snd (data hot_sea_cell ! k ! l)} = 0"
    "Max {fst (data hot_sea_cell ! k ! l) | k l. (k, l) \<in> vicinity 4 4 1 1 1} = 1"
    by simp_all
  with o1 o2 v1 v2 show ?thesis by blast
qed

text \<open>
  C3. Under a land mask the value of a land cell is to be the maximum over the land cells
  of its window alone, and that of a sea cell the maximum over the sea cells of its
  window. The plugin reaches this through the sentinel \<open>- cube_fill_value\<close>, and with it
  only where the sentinel is not above the value of the cell. For a field of 4-byte
  signed integers the fill value is \<open>-2147483647\<close>, so that the sentinel is the largest
  value of the data type: with a radius of one grid point every cell next to the boundary
  comes out as \<open>2147483647\<close>, the land cell \<open>(1, 1)\<close> where the land cells of its window
  all hold 0, and the sea cell \<open>(1, 2)\<close> where the sea cells of its window hold 0 and 1.
\<close>

theorem land_sea_boundary_int32:
  "maximum_within_vicinity metres_already with_land fillval_i4 stale_zeros hot_sea_cell_i4
     = Inr (hot_sea_cell_i4\<lparr>data :=
              [[(0, False), (2147483647, False), (2147483647, False), (1, False)],
               [(0, False), (2147483647, False), (2147483647, False), (1, False)],
               [(0, False), (2147483647, False), (2147483647, False), (1, False)],
               [(0, False), (2147483647, False), (2147483647, False), (0, False)]]\<rparr>)"
  by code_simp
section \<open>What the transforms write\<close>

subsection \<open>The store of the vicinity maximum\<close>

lemma grows_refl [simp]: "grows h h"
  by (simp add: grows_def)

lemma grows_trans: "grows h1 h2 \<Longrightarrow> grows h2 h3 \<Longrightarrow> grows h1 h3"
  by (auto simp: grows_def)

lemma grows_append [simp]: "grows h (h @ xs)"
  by (simp add: grows_def nth_append)

lemma grows_store_fresh: "grows h0 h \<Longrightarrow> length h0 \<le> a \<Longrightarrow> grows h0 (store_at a v h)"
  by (auto simp: grows_def store_at_def)

lemma grows_length: "grows h h' \<Longrightarrow> length h \<le> length h'"
  by (simp add: grows_def)

lemma vicinity_pass_st_grows:
  assumes "vicinity_pass_st lm fill u gp match (r, h) = (r', h')"
  shows "grows h h'" and "\<And>a a'. r = Inr a \<Longrightarrow> r' = Inr a' \<Longrightarrow> length h \<le> a' \<and> a' < length h'"
  using assms
  by (auto simp: vicinity_pass_st_def alloc_def store_at_def grows_def Let_def nth_append
      split: if_splits sum.splits)

lemma land_passes_st_grows:
  assumes "fold (vicinity_pass_st lm fill u gp) [True, False] (Inr a, h) = (r', h')"
  shows "grows h h'" and "\<And>a'. r' = Inr a' \<Longrightarrow> length h \<le> a' \<and> a' < length h'"
proof -
  obtain r1 h1 where 1: "vicinity_pass_st lm fill u gp True (Inr a, h) = (r1, h1)"
    by (cases "vicinity_pass_st lm fill u gp True (Inr a, h)")
  with assms have 2: "vicinity_pass_st lm fill u gp False (r1, h1) = (r', h')" by simp
  note g1 = vicinity_pass_st_grows [OF 1] and g2 = vicinity_pass_st_grows [OF 2]
  from g1(1) g2(1) show "grows h h'" by (rule grows_trans)
  fix a' assume r': "r' = Inr a'"
  show "length h \<le> a' \<and> a' < length h'"
  proof (cases r1)
    case (Inl e)
    with 2 r' show ?thesis by (simp add: vicinity_pass_st_def)
  next
    case (Inr a1)
    from g2(2) [OF Inr r'] grows_length [OF g1(1)] show ?thesis by simp
  qed
qed

lemma unmasked_copy_st_grows:
  "unmasked_copy_st fill c h = (u, h') \<Longrightarrow> grows h h' \<and> length h < length h'"
  unfolding unmasked_copy_st_def alloc_def Let_def prod.case
  by (auto simp: store_at_def grows_def nth_append split: if_splits)

lemma max_data_st_grows:
  assumes "max_data_st self fill junk c u gp h = (r, h')"
  shows "grows h h' \<and> (\<forall>a. r = Inr a \<longrightarrow> length h \<le> a \<and> a < length h')"
proof (cases "land_mask self")
  case None
  with assms show ?thesis
    unfolding max_data_st_def alloc_def
    by (auto simp: grows_def nth_append split: sum.splits)
next
  case (Some lm)
  with assms have f: "fold (vicinity_pass_st lm fill u gp) [True, False]
      (Inr (length h), h @ [ndarray (np_empty_like junk (h ! data c))]) = (r, h')"
    by (simp add: max_data_st_def alloc_def)
  note g = land_passes_st_grows [OF f]
  have "grows h (h @ [ndarray (np_empty_like junk (h ! data c))])" by simp
  from this g(1) have "grows h h'" by (rule grows_trans)
  moreover have "\<forall>a. r = Inr a \<longrightarrow> length h \<le> a \<and> a < length h'"
    using g(2) by fastforce
  ultimately show ?thesis by simp
qed

lemma update_max_cube_st_grows:
  "update_max_cube_st c a md h = (out, h') \<Longrightarrow>
     length h' = length h \<and> (\<forall>b < length h. b \<noteq> a \<longrightarrow> h' ! b = h ! b) \<and> (data out = a \<or> data out = md)"
  by (auto simp: update_max_cube_st_def store_at_def split: if_splits)

lemma maximum_within_vicinity_st_grows:
  assumes "maximum_within_vicinity_st conv self fill junk c h = (r, h')"
  shows "grows h h' \<and> (\<forall>out. r = Inr out \<longrightarrow> length h \<le> data out \<and> data out < length h')"
proof (cases "resolve_grid_point_radius conv self c")
  case (Inl e)
  with assms show ?thesis
    by (auto simp: maximum_within_vicinity_st_def)
next
  case (Inr R)
  let ?h1 = "h @ [h ! data c]"
  obtain u h2 where u: "unmasked_copy_st fill c ?h1 = (u, h2)"
    by (cases "unmasked_copy_st fill c ?h1")
  obtain md h3 where md: "max_data_st self fill junk c u (2 * R + 1) h2 = (md, h3)"
    by (cases "max_data_st self fill junk c u (2 * R + 1) h2")
  note g2 = unmasked_copy_st_grows [OF u] and g3 = max_data_st_grows [OF md]
  have g1: "grows h ?h1" by simp
  from g1 g2 have g02: "grows h h2" by (blast intro: grows_trans)
  with g3 have g03: "grows h h3" by (blast intro: grows_trans)
  from g2 g3 have l3: "length h < length h3"
    by (auto dest!: grows_length)
  show ?thesis
  proof (cases md)
    case (Inl e)
    with assms Inr u md g03 show ?thesis
      by (auto simp: maximum_within_vicinity_st_def alloc_def Let_def)
  next
    case (Inr a)
    obtain out h4 where o: "update_max_cube_st c (length h) a h3 = (out, h4)"
      by (cases "update_max_cube_st c (length h) a h3")
    from assms \<open>resolve_grid_point_radius conv self c = Inr R\<close> u md Inr o
    have r: "r = Inr out" "h' = h4"
      by (simp_all add: maximum_within_vicinity_st_def alloc_def Let_def)
    note g4 = update_max_cube_st_grows [OF o]
    from g3 Inr g2 have a: "length h \<le> a" "a < length h3"
      by (auto dest!: grows_length)
    have "grows h h4"
      using g03 g4 by (auto simp: grows_def)
    moreover have "length h \<le> data out \<and> data out < length h4"
      using g4 a l3 by auto
    ultimately show ?thesis using r by simp
  qed
qed

subsection \<open>The store model computes the values of the model on values\<close>

lemma plain_ndarray [simp]: "plain (ndarray x) = x"
  by (simp add: plain_def ndarray_def map2d_def o_def)

lemma shape_plain [simp]: "shape (plain a) = shape a"
  by (simp add: plain_def)

lemma shape_ndarray [simp]: "shape (ndarray a) = shape a"
  by (simp add: ndarray_def)

lemma zip_fst_snd_rows: "zip2d (map2d fst d) (map2d snd d) = d"
  by (simp add: zip2d_def map2d_def zip_map_map zip_same_conv_map o_def split_def zip_map_fst_snd)

lemma set_where_mask: "set_where (plain d) (map2d snd d) v = map2d (\<lambda>(x, m). if m then v else x) d"
  by (simp add: set_where_def plain_def zip_fst_snd_rows)

lemma combine_row:
  "map (\<lambda>((v, m'), (m, x)). (if m then v else x, m')) (zip row (zip (map snd row) xs))
     = map (\<lambda>((v, m), x). (if m then v else x, m)) (zip row xs)"
proof (induction row arbitrary: xs)
  case Nil
  then show ?case by simp
next
  case (Cons cell row)
  then show ?case by (cases xs) (auto simp: split_beta)
qed

lemma combine_rows:
  "map2d (\<lambda>((v, m'), (m, x)). (if m then v else x, m')) (zip2d d (zip2d (map2d snd d) md))
     = map2d (\<lambda>((v, m), x). (if m then v else x, m)) (zip2d d md)"
proof (induction d arbitrary: md)
  case Nil
  then show ?case by (simp add: zip2d_def map2d_def)
next
  case (Cons row d)
  show ?case
  proof (cases md)
    case Nil
    then show ?thesis by (simp add: zip2d_def map2d_def)
  next
    case (Cons xs md')
    with Cons.IH [of md'] show ?thesis
      by (simp add: zip2d_def map2d_def combine_row)
  qed
qed

lemma np_empty_like_shape_only: "shape a = shape b \<Longrightarrow> np_empty_like junk a = np_empty_like junk b"
proof -
  assume s: "shape a = shape b"
  then have l: "length a = length b" by (auto simp: shape_def dest: map_eq_imp_length_eq)
  have "length (a ! i) = length (b ! i)" if "i < length b" for i
  proof -
    from s have "map length a ! i = map length b ! i" by (simp add: shape_def)
    with that l show ?thesis by simp
  qed
  with l show ?thesis by (simp add: np_empty_like_def)
qed

lemma resolve_grid_point_radius_cube_at:
  "resolve_grid_point_radius conv self (cube_at h c) = resolve_grid_point_radius conv self c"
  by (simp add: resolve_grid_point_radius_def distance_to_number_of_grid_cells_def
      calculate_grid_spacing_def cube_coord_def cube_at_def)

lemma unmasked_copy_st_value:
  assumes "data c < length h" and "unmasked_copy_st fill c h = (u, h')"
  shows "u < length h' \<and> length h \<le> u
     \<and> plain (h' ! u) = (if is_masked (h ! data c)
                          then map2d (\<lambda>(v, m). if m then - fill else v) (h ! data c)
                          else plain (h ! data c))"
  using assms
  by (auto simp: unmasked_copy_st_def alloc_def store_at_def Let_def nth_append set_where_mask
      split: if_splits)

lemma vicinity_pass_st_value:
  assumes "u < length h" and "a < length h"
    and "vicinity_pass_st lm fill u gp match (Inr a, h) = (r', h')"
  shows "case vicinity_pass lm fill (plain (h ! u)) gp match (Inr (plain (h ! a))) of
           Inl e \<Rightarrow> r' = Inl e
         | Inr m \<Rightarrow> \<exists>a'. r' = Inr a' \<and> a' < length h' \<and> h' ! a' = ndarray m"
  using assms
  by (auto simp: vicinity_pass_st_def vicinity_pass_def alloc_def store_at_def Let_def nth_append
      split: if_splits sum.splits)

lemma land_passes_st_value:
  assumes u: "u < length h" and a: "a < length h"
    and f: "fold (vicinity_pass_st lm fill u gp) [True, False] (Inr a, h) = (r', h')"
  shows "case fold (vicinity_pass lm fill (plain (h ! u)) gp) [True, False] (Inr (plain (h ! a))) of
           Inl e \<Rightarrow> r' = Inl e
         | Inr m \<Rightarrow> \<exists>a'. r' = Inr a' \<and> a' < length h' \<and> h' ! a' = ndarray m"
proof -
  obtain r1 h1 where 1: "vicinity_pass_st lm fill u gp True (Inr a, h) = (r1, h1)"
    by (cases "vicinity_pass_st lm fill u gp True (Inr a, h)")
  with f have 2: "vicinity_pass_st lm fill u gp False (r1, h1) = (r', h')" by simp
  note v1 = vicinity_pass_st_value [OF u a 1]
  from vicinity_pass_st_grows(1) [OF 1] u have u1: "u < length h1" "h1 ! u = h ! u"
    by (auto simp: grows_def)
  show ?thesis
  proof (cases "vicinity_pass lm fill (plain (h ! u)) gp True (Inr (plain (h ! a)))")
    case (Inl e)
    with v1 have "r1 = Inl e" by simp
    with 2 Inl show ?thesis by (simp add: vicinity_pass_st_def vicinity_pass_def)
  next
    case (Inr m1)
    with v1 obtain a1 where a1: "r1 = Inr a1" "a1 < length h1" "h1 ! a1 = ndarray m1" by auto
    from vicinity_pass_st_value [OF u1(1) a1(2) 2 [unfolded a1(1)]] a1(3) u1(2) Inr
    show ?thesis by simp
  qed
qed

lemma max_data_st_value:
  assumes c: "data c < length h" and u: "u < length h"
    and m: "max_data_st self fill junk c u gp h = (r, h')"
  shows "case (case land_mask self of
                 Some lm \<Rightarrow> fold (vicinity_pass lm fill (plain (h ! u)) gp) [True, False]
                              (Inr (np_empty_like junk (h ! data c)))
               | None \<Rightarrow> Inr (maximum_filter (plain (h ! u)) gp)) of
           Inl e \<Rightarrow> r = Inl e
         | Inr md \<Rightarrow> \<exists>a. r = Inr a \<and> a < length h' \<and> h' ! a = ndarray md"
proof (cases "land_mask self")
  case None
  with m show ?thesis
    by (auto simp: max_data_st_def alloc_def split: sum.splits)
next
  case (Some lm)
  let ?h1 = "h @ [ndarray (np_empty_like junk (h ! data c))]"
  from m Some have f: "fold (vicinity_pass_st lm fill u gp) [True, False] (Inr (length h), ?h1) = (r, h')"
    by (simp add: max_data_st_def alloc_def)
  have "u < length ?h1" "length h < length ?h1" using u by simp_all
  from land_passes_st_value [OF this f] u Some show ?thesis
    by (simp add: nth_append)
qed

lemma update_max_cube_st_value:
  assumes "update_max_cube_st c a md h = (out, h')" and "a < length h" and "md < length h"
  shows "data out < length h'
     \<and> h' ! data out = (if is_masked (h ! data c)
                         then map2d (\<lambda>((v, m'), (m, x)). (if m then v else x, m'))
                                (zip2d (h ! a) (zip2d (map2d snd (h ! data c)) (plain (h ! md))))
                         else h ! md)
     \<and> cube_name out = cube_name c \<and> xcoord out = xcoord c \<and> ycoord out = ycoord c"
  using assms by (auto simp: update_max_cube_st_def store_at_def split: if_splits)

lemma maximum_within_vicinity_st_value:
  assumes c: "data c < length h"
    and m: "maximum_within_vicinity_st conv self fill junk c h = (r, h')"
  shows "map_sum id (cube_at h') r = maximum_within_vicinity conv self fill junk (cube_at h c)"
proof (cases "resolve_grid_point_radius conv self c")
  case (Inl e)
  with m show ?thesis
    by (auto simp: maximum_within_vicinity_st_def maximum_within_vicinity_def
        resolve_grid_point_radius_cube_at)
next
  case (Inr R)
  let ?d = "h ! data c"
  let ?h1 = "h @ [?d]"
  let ?U = "(if is_masked ?d then map2d (\<lambda>(v, m). if m then - fill else v) ?d else map2d fst ?d)"
  let ?P = "(case land_mask self of
               Some lm \<Rightarrow> fold (vicinity_pass lm fill ?U (2 * R + 1)) [True, False]
                            (Inr (np_empty_like junk ?d))
             | None \<Rightarrow> Inr (maximum_filter ?U (2 * R + 1)))"
  have dc: "data (cube_at h c) = ?d" by (simp add: cube_at_def)
  have pure: "maximum_within_vicinity conv self fill junk (cube_at h c)
      = (case ?P of
           Inl e \<Rightarrow> Inl e
         | Inr md \<Rightarrow>
             Inr ((cube_at h c)\<lparr>data :=
                    (if is_masked ?d
                     then map2d (\<lambda>((v, m), x). (if m then v else x, m)) (zip2d ?d md)
                     else map2d (\<lambda>x. (x, False)) md)\<rparr>))"
    unfolding maximum_within_vicinity_def resolve_grid_point_radius_cube_at Inr dc
    by (simp add: Let_def)
  obtain u h2 where u: "unmasked_copy_st fill c ?h1 = (u, h2)"
    by (cases "unmasked_copy_st fill c ?h1")
  obtain md h3 where md: "max_data_st self fill junk c u (2 * R + 1) h2 = (md, h3)"
    by (cases "max_data_st self fill junk c u (2 * R + 1) h2")
  from c have c1: "data c < length ?h1" "?h1 ! data c = ?d" by (simp_all add: nth_append)
  from unmasked_copy_st_value [OF c1(1) u] c1(2)
  have uv: "u < length h2" "plain (h2 ! u) = ?U" by (simp_all add: plain_def)
  from unmasked_copy_st_grows [OF u] have g2: "grows ?h1 h2" by simp
  with c have d2: "data c < length h2" "h2 ! data c = ?d" "length h < length h2" "h2 ! length h = ?d"
    by (auto simp: grows_def nth_append)
  note mv = max_data_st_value [OF d2(1) uv(1) md, unfolded uv(2) d2(2)]
  from max_data_st_grows [OF md] have g3: "grows h2 h3" by simp
  with d2 have d3: "h3 ! data c = ?d" "length h < length h3" "h3 ! length h = ?d"
    by (auto simp: grows_def)
  show ?thesis
  proof (cases ?P)
    case (Inl e)
    with mv have "md = Inl e" by simp
    with m Inr u md have "r = Inl e"
      by (simp add: maximum_within_vicinity_st_def alloc_def Let_def)
    with pure Inl show ?thesis by simp
  next
    case (Inr mdv) note P = this
    with mv obtain a where a: "md = Inr a" "a < length h3" "h3 ! a = ndarray mdv" by auto
    obtain out h4 where o: "update_max_cube_st c (length h) a h3 = (out, h4)"
      by (cases "update_max_cube_st c (length h) a h3")
    from m \<open>resolve_grid_point_radius conv self c = Inr R\<close> u md a(1) o
    have r: "r = Inr out" "h' = h4"
      by (simp_all add: maximum_within_vicinity_st_def alloc_def Let_def)
    from update_max_cube_st_value [OF o d3(2) a(2)] d3 a(3)
    have v: "h4 ! data out = (if is_masked ?d
                then map2d (\<lambda>((v, m), x). (if m then v else x, m)) (zip2d ?d mdv)
                else ndarray mdv)"
      "cube_name out = cube_name c" "xcoord out = xcoord c" "ycoord out = ycoord c"
      by (simp_all add: combine_rows)
    from pure P v r show ?thesis
      by (simp add: cube_at_def ndarray_def)
  qed
qed

subsection \<open>The loops over the slices\<close>

lemma vicinity_slice_step_grows:
  assumes "vicinity_slice_step conv self fill junk c k (r, s) = (r', s')"
  shows "nd_arrays s' = nd_arrays s \<and> grows (arrays s) (arrays s')"
proof (cases r)
  case (Inl e)
  with assms show ?thesis by (simp add: vicinity_slice_step_def)
next
  case (Inr max_cubes)
  let ?h1 = "arrays s @ [nd_arrays s ! data c ! k]"
  obtain q h2 where m: "maximum_within_vicinity_st conv self fill junk (c\<lparr>data := length (arrays s)\<rparr>) ?h1 = (q, h2)"
    by (cases "maximum_within_vicinity_st conv self fill junk (c\<lparr>data := length (arrays s)\<rparr>) ?h1")
  from maximum_within_vicinity_st_grows [OF m] have "grows ?h1 h2" by simp
  with grows_append [of "arrays s"] have g: "grows (arrays s) h2" by (rule grows_trans)
  from assms Inr m have "nd_arrays s' = nd_arrays s \<and> arrays s' = h2"
    by (auto simp: vicinity_slice_step_def alloc_def Let_def split: sum.splits)
  with g show ?thesis by simp
qed

lemma vicinity_slices_grow:
  "fold (vicinity_slice_step conv self fill junk c) ks (r, s) = (r', s')
     \<Longrightarrow> nd_arrays s' = nd_arrays s \<and> grows (arrays s) (arrays s')"
proof (induction ks arbitrary: r s)
  case Nil
  then show ?case by simp
next
  case (Cons k ks)
  obtain r1 s1 where 1: "vicinity_slice_step conv self fill junk c k (r, s) = (r1, s1)"
    by (cases "vicinity_slice_step conv self fill junk c k (r, s)")
  with Cons.prems have "fold (vicinity_slice_step conv self fill junk c) ks (r1, s1) = (r', s')"
    by simp
  from Cons.IH [OF this] vicinity_slice_step_grows [OF 1] show ?case
    by (auto intro: grows_trans)
qed

lemma OccurrenceWithinVicinity_process_grows:
  assumes "OccurrenceWithinVicinity_process conv self fill junk c s = (r, s')"
  shows "grows (nd_arrays s) (nd_arrays s') \<and> grows (arrays s) (arrays s')
         \<and> (\<forall>out. r = Inr out \<longrightarrow> length (nd_arrays s) \<le> data out \<and> data out < length (nd_arrays s'))"
proof (cases "case land_mask_cube self of Some lmc \<Rightarrow> \<not> spatial_coords_match c lmc | None \<Rightarrow> False")
  case True
  with assms show ?thesis by (auto simp: OccurrenceWithinVicinity_process_def)
next
  case False
  obtain q s1 where f: "fold (vicinity_slice_step conv self fill junk c)
      [0..<length (nd_arrays s ! data c)] (Inr [], s) = (q, s1)"
    by (cases "fold (vicinity_slice_step conv self fill junk c) [0..<length (nd_arrays s ! data c)] (Inr [], s)")
  note g = vicinity_slices_grow [OF f]
  from assms False f g show ?thesis
    by (auto simp: OccurrenceWithinVicinity_process_def alloc_def Let_def grows_def nth_append
        split: sum.splits if_splits)
qed

lemma vicinity_slices_error:
  "fold (vicinity_slice_step conv self fill junk c) ks (Inl e, s) = (Inl e, s)"
  by (induction ks) (simp_all add: vicinity_slice_step_def)

lemma vicinity_slice_step_value:
  assumes st: "vicinity_slice_step conv self fill junk c k (Inr mcs, s) = (Inr mcs1, s1)"
  shows "\<exists>mc. mcs1 = mcs @ [mc] \<and> data mc < length (arrays s1)
           \<and> maximum_within_vicinity conv self fill junk
                \<lparr>cube_name = cube_name c, xcoord = xcoord c, ycoord = ycoord c,
                  data = nd_arrays s ! data c ! k\<rparr>
               = Inr (cube_at (arrays s1) mc)"
proof -
  let ?h1 = "arrays s @ [nd_arrays s ! data c ! k]"
  let ?sl = "c\<lparr>data := length (arrays s)\<rparr>"
  obtain q h2 where m: "maximum_within_vicinity_st conv self fill junk ?sl ?h1 = (q, h2)"
    by (cases "maximum_within_vicinity_st conv self fill junk ?sl ?h1")
  from st m obtain mc where mc: "q = Inr mc" "mcs1 = mcs @ [mc]" "arrays s1 = h2"
    by (auto simp: vicinity_slice_step_def alloc_def Let_def split: sum.splits)
  have d: "data ?sl < length ?h1" by simp
  from maximum_within_vicinity_st_value [OF d m] mc(1)
  have "maximum_within_vicinity conv self fill junk (cube_at ?h1 ?sl) = Inr (cube_at h2 mc)"
    by simp
  moreover have "cube_at ?h1 ?sl = \<lparr>cube_name = cube_name c, xcoord = xcoord c, ycoord = ycoord c,
                  data = nd_arrays s ! data c ! k\<rparr>"
    by (simp add: cube_at_def)
  moreover from maximum_within_vicinity_st_grows [OF m] mc(1) have "data mc < length h2" by simp
  ultimately show ?thesis using mc by simp
qed

lemma vicinity_slices_value:
  assumes "fold (vicinity_slice_step conv self fill junk c) ks (Inr mcs, s) = (Inr mcs', s')"
    and "\<forall>mc \<in> set mcs. data mc < length (arrays s)"
  shows "\<exists>new. mcs' = mcs @ new \<and> length new = length ks
           \<and> (\<forall>mc \<in> set mcs'. data mc < length (arrays s'))
           \<and> (\<forall>n < length ks.
                 maximum_within_vicinity conv self fill junk
                   \<lparr>cube_name = cube_name c, xcoord = xcoord c, ycoord = ycoord c,
                     data = nd_arrays s ! data c ! (ks ! n)\<rparr>
                 = Inr (cube_at (arrays s') (new ! n)))"
  using assms
proof (induction ks arbitrary: mcs s)
  case Nil
  then show ?case by simp
next
  case (Cons k ks)
  obtain r1 s1 where 1: "vicinity_slice_step conv self fill junk c k (Inr mcs, s) = (r1, s1)"
    by (cases "vicinity_slice_step conv self fill junk c k (Inr mcs, s)")
  with Cons.prems(1) have 2: "fold (vicinity_slice_step conv self fill junk c) ks (r1, s1) = (Inr mcs', s')"
    by simp
  have "\<exists>mcs1. r1 = Inr mcs1"
  proof (cases r1)
    case (Inl e)
    with 2 vicinity_slices_error [of conv self fill junk c ks e s1] show ?thesis by simp
  qed simp
  then obtain mcs1 where r1: "r1 = Inr mcs1" by blast
  from vicinity_slice_step_value [OF 1 [unfolded r1]] obtain mc where mc:
    "mcs1 = mcs @ [mc]" "data mc < length (arrays s1)"
    "maximum_within_vicinity conv self fill junk
       \<lparr>cube_name = cube_name c, xcoord = xcoord c, ycoord = ycoord c, data = nd_arrays s ! data c ! k\<rparr>
     = Inr (cube_at (arrays s1) mc)"
    by blast
  from vicinity_slice_step_grows [OF 1] have g1: "nd_arrays s1 = nd_arrays s" "grows (arrays s) (arrays s1)"
    by simp_all
  from Cons.prems(2) g1(2) mc(1,2) have b1: "\<forall>mc \<in> set mcs1. data mc < length (arrays s1)"
    by (auto simp: grows_def)
  from Cons.IH [OF 2 [unfolded r1] b1] obtain new where new:
    "mcs' = mcs1 @ new" "length new = length ks"
    "\<forall>mc \<in> set mcs'. data mc < length (arrays s')"
    "\<forall>n < length ks.
        maximum_within_vicinity conv self fill junk
          \<lparr>cube_name = cube_name c, xcoord = xcoord c, ycoord = ycoord c,
            data = nd_arrays s1 ! data c ! (ks ! n)\<rparr>
        = Inr (cube_at (arrays s') (new ! n))"
    by blast
  from vicinity_slices_grow [OF 2] have g2: "grows (arrays s1) (arrays s')" by simp
  with mc(2) have "cube_at (arrays s') mc = cube_at (arrays s1) mc"
    by (simp add: cube_at_def grows_def)
  with mc(3) have k: "maximum_within_vicinity conv self fill junk
       \<lparr>cube_name = cube_name c, xcoord = xcoord c, ycoord = ycoord c, data = nd_arrays s ! data c ! k\<rparr>
     = Inr (cube_at (arrays s') mc)"
    by simp
  have "\<forall>n < length (k # ks).
        maximum_within_vicinity conv self fill junk
          \<lparr>cube_name = cube_name c, xcoord = xcoord c, ycoord = ycoord c,
            data = nd_arrays s ! data c ! ((k # ks) ! n)\<rparr>
        = Inr (cube_at (arrays s') ((mc # new) ! n))"
  proof (intro allI impI)
    fix n assume "n < length (k # ks)"
    then show "maximum_within_vicinity conv self fill junk
          \<lparr>cube_name = cube_name c, xcoord = xcoord c, ycoord = ycoord c,
            data = nd_arrays s ! data c ! ((k # ks) ! n)\<rparr>
        = Inr (cube_at (arrays s') ((mc # new) ! n))"
      using k new(4) g1(1) by (cases n) simp_all
  qed
  with new mc(1) show ?case
    by (intro exI [of _ "mc # new"]) simp
qed

lemma OccurrenceWithinVicinity_process_value:
  assumes "OccurrenceWithinVicinity_process conv self fill junk c s = (Inr out, s')"
  shows "length (nd_arrays s' ! data out) = length (nd_arrays s ! data c)
     \<and> (\<forall>k < length (nd_arrays s ! data c).
           \<exists>res. maximum_within_vicinity conv self fill junk
                  \<lparr>cube_name = cube_name c, xcoord = xcoord c, ycoord = ycoord c,
                    data = nd_arrays s ! data c ! k\<rparr> = Inr res
               \<and> data res = nd_arrays s' ! data out ! k)"
proof -
  let ?n = "length (nd_arrays s ! data c)"
  obtain q s1 where f: "fold (vicinity_slice_step conv self fill junk c) [0..<?n] (Inr [], s) = (q, s1)"
    by (cases "fold (vicinity_slice_step conv self fill junk c) [0..<?n] (Inr [], s)")
  from assms f obtain mcs where q: "q = Inr mcs"
    and ou: "data out = length (nd_arrays s1)"
      "s' = s1\<lparr>nd_arrays := nd_arrays s1 @ [map (\<lambda>mc. arrays s1 ! data mc) mcs]\<rparr>"
    by (auto simp: OccurrenceWithinVicinity_process_def alloc_def Let_def split: sum.splits if_splits)
  from vicinity_slices_value [OF f [unfolded q]] obtain new where new:
    "mcs = new" "length new = ?n"
    "\<forall>k < ?n. maximum_within_vicinity conv self fill junk
          \<lparr>cube_name = cube_name c, xcoord = xcoord c, ycoord = ycoord c,
            data = nd_arrays s ! data c ! ([0..<?n] ! k)\<rparr>
        = Inr (cube_at (arrays s1) (new ! k))"
    by auto
  from ou have r: "nd_arrays s' ! data out = map (\<lambda>mc. arrays s1 ! data mc) mcs"
    by simp
  show ?thesis
  proof (intro conjI allI impI)
    show "length (nd_arrays s' ! data out) = ?n" using r new by simp
    fix k assume k: "k < ?n"
    with new(3) have "maximum_within_vicinity conv self fill junk
          \<lparr>cube_name = cube_name c, xcoord = xcoord c, ycoord = ycoord c,
            data = nd_arrays s ! data c ! k\<rparr>
        = Inr (cube_at (arrays s1) (new ! k))"
      by simp
    moreover have "data (cube_at (arrays s1) (new ! k)) = nd_arrays s' ! data out ! k"
      using r new k by (simp add: cube_at_def)
    ultimately show "\<exists>res. maximum_within_vicinity conv self fill junk
                  \<lparr>cube_name = cube_name c, xcoord = xcoord c, ycoord = ycoord c,
                    data = nd_arrays s ! data c ! k\<rparr> = Inr res
               \<and> data res = nd_arrays s' ! data out ! k"
      by blast
  qed
qed

lemma nbhood_band_step_grows:
  "nbhood_band_step nbhood mask_cube x k (r, s) = (r', s')
     \<Longrightarrow> nd_arrays s' = nd_arrays s \<and> grows (arrays s) (arrays s')"
  by (auto simp: nbhood_band_step_def alloc_def Let_def grows_def nth_append split: sum.splits)

lemma nbhood_bands_grow:
  "fold (nbhood_band_step nbhood mask_cube x) ks (r, s) = (r', s')
     \<Longrightarrow> nd_arrays s' = nd_arrays s \<and> grows (arrays s) (arrays s')"
proof (induction ks arbitrary: r s)
  case Nil
  then show ?case by simp
next
  case (Cons k ks)
  obtain r1 s1 where 1: "nbhood_band_step nbhood mask_cube x k (r, s) = (r1, s1)"
    by (cases "nbhood_band_step nbhood mask_cube x k (r, s)")
  with Cons.prems have "fold (nbhood_band_step nbhood mask_cube x) ks (r1, s1) = (r', s')"
    by simp
  from Cons.IH [OF this] nbhood_band_step_grows [OF 1] show ?case
    by (auto intro: grows_trans)
qed

lemma nbhood_slice_step_grows:
  assumes "nbhood_slice_step nbhood c mask_cube k (r, s) = (r', s')"
  shows "grows (nd_arrays s) (nd_arrays s') \<and> grows (arrays s) (arrays s')"
proof (cases r)
  case (Inl e)
  with assms show ?thesis by (simp add: nbhood_slice_step_def)
next
  case (Inr result_slices)
  let ?s1 = "s\<lparr>arrays := arrays s @ [nd_arrays s ! data c ! k]\<rparr>"
  obtain q s2 where f: "fold (nbhood_band_step nbhood mask_cube (length (arrays s)))
      [0..<length (nd_arrays ?s1 ! data mask_cube)] (Inr [], ?s1) = (q, s2)"
    by (cases "fold (nbhood_band_step nbhood mask_cube (length (arrays s)))
      [0..<length (nd_arrays ?s1 ! data mask_cube)] (Inr [], ?s1)")
  from nbhood_bands_grow [OF f] have g: "nd_arrays s2 = nd_arrays s" "grows (arrays s) (arrays s2)"
    by (auto intro: grows_trans [OF grows_append])
  from assms Inr f have "(nd_arrays s' = nd_arrays s2 \<or> (\<exists>x. nd_arrays s' = nd_arrays s2 @ [x]))
      \<and> arrays s' = arrays s2"
    by (auto simp: nbhood_slice_step_def alloc_def Let_def split: sum.splits if_splits)
  with g show ?thesis by auto
qed

lemma nbhood_slices_grow:
  "fold (nbhood_slice_step nbhood c mask_cube) ks (r, s) = (r', s')
     \<Longrightarrow> grows (nd_arrays s) (nd_arrays s') \<and> grows (arrays s) (arrays s')"
proof (induction ks arbitrary: r s)
  case Nil
  then show ?case by simp
next
  case (Cons k ks)
  obtain r1 s1 where 1: "nbhood_slice_step nbhood c mask_cube k (r, s) = (r1, s1)"
    by (cases "nbhood_slice_step nbhood c mask_cube k (r, s)")
  with Cons.prems have "fold (nbhood_slice_step nbhood c mask_cube) ks (r1, s1) = (r', s')"
    by simp
  from Cons.IH [OF this] nbhood_slice_step_grows [OF 1] show ?case
    by (auto intro: grows_trans)
qed

lemma ApplyNeighbourhoodProcessingWithAMask_process_grows:
  assumes "ApplyNeighbourhoodProcessingWithAMask_process nbhood c mask_cube s = (r, s')"
  shows "grows (nd_arrays s) (nd_arrays s') \<and> grows (arrays s) (arrays s')
         \<and> (\<forall>out. r = Inr out \<longrightarrow> length (nd_arrays s) \<le> data out \<and> data out < length (nd_arrays s'))"
proof -
  obtain q s1 where f: "fold (nbhood_slice_step nbhood c mask_cube)
      [0..<length (nd_arrays s ! data c)] (Inr [], s) = (q, s1)"
    by (cases "fold (nbhood_slice_step nbhood c mask_cube) [0..<length (nd_arrays s ! data c)] (Inr [], s)")
  note g = nbhood_slices_grow [OF f]
  from assms f have "(s' = s1 \<and> (\<forall>out. r \<noteq> Inr out))
      \<or> (\<exists>x. s' = s1\<lparr>nd_arrays := nd_arrays s1 @ [x]\<rparr> \<and> r = Inr (c\<lparr>data := length (nd_arrays s1)\<rparr>))"
    by (auto simp: ApplyNeighbourhoodProcessingWithAMask_process_def alloc_def Let_def
        split: sum.splits if_splits)
  with g show ?thesis
    by (auto simp: grows_def nth_append)
qed

subsection \<open>The store of the collapse\<close>

lemma reweight_weights_writes:
  assumes "reweight_weights coord wc names nb h = (r, h')"
  shows "data_arrays h' = data_arrays h \<and> length (weight_arrays h) \<le> length (weight_arrays h')
         \<and> (\<forall>a < length (weight_arrays h). a \<noteq> ndata wc \<longrightarrow> weight_arrays h' ! a = weight_arrays h ! a)"
  using assms
  by (auto simp: reweight_weights_def write_weights_def alloc_weights_def Let_def nth_append
      split: if_splits)

lemma settle_weights_writes:
  assumes "settle_weights self cube h = (r, self', h')"
  shows "data_arrays h' = data_arrays h \<and> length (weight_arrays h) \<le> length (weight_arrays h')
         \<and> (\<forall>a < length (weight_arrays h). (\<forall>wc. weights self = WeightsCube wc \<longrightarrow> ndata wc \<noteq> a)
               \<longrightarrow> weight_arrays h' ! a = weight_arrays h ! a)"
proof (cases "weights self")
  case (NotACube v)
  with assms show ?thesis by (simp add: settle_weights_def)
next
  case (WeightsCube wc)
  show ?thesis
  proof (cases "slices3d (data_arrays h ! ndata cube)")
    case Nil
    with assms WeightsCube show ?thesis
      by (auto simp: settle_weights_def Let_def split: if_splits)
  next
    case (Cons sl rest)
    obtain q h1 where rw: "reweight_weights (coord_masked self) wc (coord_names cube) sl h = (q, h1)"
      by (cases "reweight_weights (coord_masked self) wc (coord_names cube) sl h")
    from assms WeightsCube Cons rw have "h' = h1"
      by (auto simp: settle_weights_def Let_def split: if_splits sum.splits)
    with reweight_weights_writes [OF rw] WeightsCube show ?thesis by auto
  qed
qed

lemma masked_invalid_same:
  "masked_invalid a = a \<longleftrightarrow>
     (\<forall>sl \<in> set (slices3d a). \<forall>row \<in> set sl. \<forall>cell \<in> set row. snd cell \<or> np_isfinite (fst cell))"
proof -
  have cell: "(case cell of (v, m) \<Rightarrow> (v, m \<or> \<not> np_isfinite v)) = cell \<longleftrightarrow> snd cell \<or> np_isfinite (fst cell)"
    for cell :: "pyfloat \<times> bool"
    by (cases cell) auto
  have "masked_invalid a = a
      \<longleftrightarrow> map (map2d (\<lambda>(v, m). (v, m \<or> \<not> np_isfinite v))) (slices3d a) = slices3d a"
    by (cases a) (simp add: masked_invalid_def)
  also have "\<dots> \<longleftrightarrow> (\<forall>sl \<in> set (slices3d a). \<forall>row \<in> set sl. \<forall>c \<in> set row.
      (case c of (v, m) \<Rightarrow> (v, m \<or> \<not> np_isfinite v)) = c)"
    by (simp add: map2d_def map_eq_conv [where g = "\<lambda>x. x", simplified])
  finally show ?thesis by (simp add: cell)
qed

lemma process_writes:
  assumes "process ext self cube h = (r, cube', self', h')"
  shows "grows (data_arrays h) (data_arrays h')
    \<and> cube' = cube\<lparr>ndata := length (data_arrays h)\<rparr>
    \<and> data_arrays h' ! ndata cube' = masked_invalid (data_arrays h ! ndata cube)
    \<and> (\<forall>out. r = Inr out \<longrightarrow> length (data_arrays h) < ndata out \<and> ndata out < length (data_arrays h'))
    \<and> length (weight_arrays h) \<le> length (weight_arrays h')
    \<and> (\<forall>a < length (weight_arrays h). (\<forall>wc. weights self = WeightsCube wc \<longrightarrow> ndata wc \<noteq> a)
          \<longrightarrow> weight_arrays h' ! a = weight_arrays h ! a)"
proof -
  let ?h1 = "h\<lparr>data_arrays := data_arrays h @ [masked_invalid (data_arrays h ! ndata cube)]\<rparr>"
  let ?cube1 = "cube\<lparr>ndata := length (data_arrays h)\<rparr>"
  obtain q self1 h2 where sw: "settle_weights self ?cube1 ?h1 = (q, self1, h2)"
    by (cases "settle_weights self ?cube1 ?h1")
  note w = settle_weights_writes [OF sw]
  from assms sw have
    "cube' = ?cube1 \<and>
     ((h' = h2 \<and> (\<forall>out. r \<noteq> Inr out))
      \<or> (\<exists>x out. h' = h2\<lparr>data_arrays := data_arrays h2 @ [x]\<rparr> \<and> r = Inr out
            \<and> ndata out = length (data_arrays h2)))"
    by (auto simp: process_def alloc_data_def Let_def split: sum.splits prod.splits)
  with w show ?thesis
    by (auto simp: grows_def nth_append)
qed

section \<open>Properties of the collapse of the masked coordinate\<close>

subsection \<open>Reweighting\<close>


lemma shape_normalise_weights [simp]: "shape (normalise_weights w) = shape w"
  by (simp add: shape_def normalise_weights_def)







subsection \<open>The coordinate and its cell methods\<close>

lemma remove1_unique: "count_list xs x = 1 \<Longrightarrow> x \<notin> set (remove1 x xs)"
proof (induction xs)
  case Nil
  then show ?case by simp
next
  case (Cons a xs)
  show ?case
  proof (cases "a = x")
    case True
    with Cons.prems have "count_list xs x = 0" by simp
    then have "x \<notin> set xs" by (simp add: count_list_0_iff)
    with True show ?thesis by simp
  next
    case False
    with Cons show ?thesis by simp
  qed
qed

lemma remove_coord_absent:
  "remove_coord c n = Inr c' \<Longrightarrow> n \<notin> set (coord_names c') \<and> cell_methods c' = cell_methods c"
  by (auto simp: remove_coord_def remove1_unique split: if_splits)

text \<open>
  C8. Whatever the external reduction returns, every output of \<open>process\<close> has no
  coordinate of the name \<open>coord_masked\<close>, and no cell method whose coordinates are exactly
  that one coordinate. And \<open>process\<close> does return when the weights are settled without
  error and the cube that the external reduction and merge return carries exactly one
  coordinate of the name, as the collapsed cube does; the output then has the other
  coordinates and the other cell methods of that cube.
\<close>

theorem collapse_removes_coordinate:
  "(process ext self cube h = (Inr out, cube', self', h') \<longrightarrow>
      coord_masked self \<notin> set (coord_names out)
      \<and> (\<forall>cm \<in> set (cell_methods out). cm_coord_names cm \<noteq> [coord_masked self]))
   \<and> (settle_weights self (cube\<lparr>ndata := length (data_arrays h)\<rparr>)
         (h\<lparr>data_arrays := data_arrays h @ [masked_invalid (data_arrays h ! ndata cube)]\<rparr>)
         = (Inr wv, self1, h2)
       \<and> ext (coord_masked self) (cube_value h2 (cube\<lparr>ndata := length (data_arrays h)\<rparr>)) wv = Inr result
       \<and> count_list (coord_names result) (coord_masked self) = 1 \<longrightarrow>
      (\<exists>out cube' self' h'. process ext self cube h = (Inr out, cube', self', h')
         \<and> coord_names out = remove1 (coord_masked self) (coord_names result)
         \<and> cell_methods out
             = filter (\<lambda>cm. cm_coord_names cm \<noteq> [coord_masked self]) (cell_methods result)))"
proof (intro conjI impI)
  assume p: "process ext self cube h = (Inr out, cube', self', h')"
  then have "coord_masked self \<notin> set (coord_names out)
      \<and> (\<forall>cm \<in> set (cell_methods out). cm_coord_names cm \<noteq> [coord_masked self])"
    by (auto simp: process_def alloc_data_def Let_def split: prod.splits sum.splits
        dest: remove_coord_absent)
  then show "coord_masked self \<notin> set (coord_names out)"
    "\<forall>cm \<in> set (cell_methods out). cm_coord_names cm \<noteq> [coord_masked self]"
    by simp_all
next
  assume a: "settle_weights self (cube\<lparr>ndata := length (data_arrays h)\<rparr>)
         (h\<lparr>data_arrays := data_arrays h @ [masked_invalid (data_arrays h ! ndata cube)]\<rparr>)
         = (Inr wv, self1, h2)
       \<and> ext (coord_masked self) (cube_value h2 (cube\<lparr>ndata := length (data_arrays h)\<rparr>)) wv = Inr result
       \<and> count_list (coord_names result) (coord_masked self) = 1"
  then show "\<exists>out cube' self' h'. process ext self cube h = (Inr out, cube', self', h')
         \<and> coord_names out = remove1 (coord_masked self) (coord_names result)
         \<and> cell_methods out
             = filter (\<lambda>cm. cm_coord_names cm \<noteq> [coord_masked self]) (cell_methods result)"
    by (simp add: process_def alloc_data_def Let_def remove_coord_def)
qed

theorem collapse_removes_coordinate_witness:
  "\<exists>out cube' self' h'. process keep_all collapse_zones nbhood_field example_store = (Inr out, cube', self', h')
     \<and> coord_names out = [''projection_y_coordinate'', ''projection_x_coordinate'']
     \<and> ''topographic_zone'' \<notin> set (coord_names out)
     \<and> cell_methods out = []"
proof -
  have p: "process keep_all collapse_zones nbhood_field example_store
      = (Inr \<lparr>coord_names = [''projection_y_coordinate'', ''projection_x_coordinate''],
               cell_methods = [], ndata = 2\<rparr>,
         nbhood_field\<lparr>ndata := 1\<rparr>,
         collapse_zones\<lparr>weights := WeightsCube (weights_field\<lparr>ndata := 1\<rparr>)\<rparr>,
         \<lparr>data_arrays = [\<lparr>outer = [], slices3d = [two_bands]\<rparr>,
                         masked_invalid \<lparr>outer = [], slices3d = [two_bands]\<rparr>,
                         masked_invalid \<lparr>outer = [], slices3d = [two_bands]\<rparr>],
           weight_arrays = [[[(0, False), (0, False)], [(1 / 2, False), (0, False)]],
                            [[(0, False), (0, False)], [(1, False), (0, False)]]]\<rparr>)"
    by code_simp
  have c: "coord_masked collapse_zones = ''topographic_zone''" by (simp add: collapse_zones_def)
  from collapse_removes_coordinate [THEN conjunct1, rule_format, OF p]
  have "''topographic_zone'' \<notin> set [''projection_y_coordinate'', ''projection_x_coordinate'']"
    unfolding c by simp
  with p show ?thesis by simp
qed

subsection \<open>The transforms and the arrays of their inputs\<close>

text \<open>
  C1, as amended. \<open>OccurrenceWithinVicinity.process\<close> and
  \<open>ApplyNeighbourhoodProcessingWithAMask.process\<close> leave every array object that exists
  before the call as it was, so also the data of their input fields, and a field that
  they return has a new array. \<open>CollapseMaskedNeighbourhoodCoordinate.process\<close> writes
  into no data array that exists before the call either, and a field that it returns
  has a new array; but it makes the input field refer to a new masked array, the old
  data with every cell that holds not-a-number or an infinity masked as well, so that
  the data of the input field is the same after the call exactly when no unmasked cell
  held such a value. Of the weights arrays that exist before the call it writes at most
  the one of the weights cube of the plugin.
\<close>

theorem transforms_and_input_arrays:
  "(OccurrenceWithinVicinity_process conv vself fill junk c s = (r1, s1) \<longrightarrow>
       (\<forall>a < length (nd_arrays s). nd_arrays s1 ! a = nd_arrays s ! a)
     \<and> (\<forall>a < length (arrays s). arrays s1 ! a = arrays s ! a)
     \<and> (\<forall>out. r1 = Inr out \<longrightarrow> length (nd_arrays s) \<le> data out \<and> data out < length (nd_arrays s1)))
   \<and> (ApplyNeighbourhoodProcessingWithAMask_process nbhood c2 mask_cube s2 = (r2, s2') \<longrightarrow>
       (\<forall>a < length (nd_arrays s2). nd_arrays s2' ! a = nd_arrays s2 ! a)
     \<and> (\<forall>a < length (arrays s2). arrays s2' ! a = arrays s2 ! a)
     \<and> (\<forall>out. r2 = Inr out \<longrightarrow> length (nd_arrays s2) \<le> data out \<and> data out < length (nd_arrays s2')))
   \<and> (process ext cself cube h = (r3, cube', cself', h') \<longrightarrow>
       (\<forall>a < length (data_arrays h). data_arrays h' ! a = data_arrays h ! a)
     \<and> cube' = cube\<lparr>ndata := length (data_arrays h)\<rparr>
     \<and> data_arrays h' ! ndata cube' = masked_invalid (data_arrays h ! ndata cube)
     \<and> ((data_arrays h' ! ndata cube' = data_arrays h ! ndata cube)
          = (\<forall>sl \<in> set (slices3d (data_arrays h ! ndata cube)). \<forall>row \<in> set sl. \<forall>cell \<in> set row.
               snd cell \<or> np_isfinite (fst cell)))
     \<and> (\<forall>out. r3 = Inr out \<longrightarrow> length (data_arrays h) < ndata out \<and> ndata out < length (data_arrays h'))
     \<and> (\<forall>a < length (weight_arrays h). (\<forall>wc. weights cself = WeightsCube wc \<longrightarrow> ndata wc \<noteq> a)
           \<longrightarrow> weight_arrays h' ! a = weight_arrays h ! a))"
proof (intro conjI impI)
  assume "OccurrenceWithinVicinity_process conv vself fill junk c s = (r1, s1)"
  from OccurrenceWithinVicinity_process_grows [OF this]
  show "\<forall>a < length (nd_arrays s). nd_arrays s1 ! a = nd_arrays s ! a"
    "\<forall>a < length (arrays s). arrays s1 ! a = arrays s ! a"
    "\<forall>out. r1 = Inr out \<longrightarrow> length (nd_arrays s) \<le> data out \<and> data out < length (nd_arrays s1)"
    by (simp_all add: grows_def)
next
  assume "ApplyNeighbourhoodProcessingWithAMask_process nbhood c2 mask_cube s2 = (r2, s2')"
  from ApplyNeighbourhoodProcessingWithAMask_process_grows [OF this]
  show "\<forall>a < length (nd_arrays s2). nd_arrays s2' ! a = nd_arrays s2 ! a"
    "\<forall>a < length (arrays s2). arrays s2' ! a = arrays s2 ! a"
    "\<forall>out. r2 = Inr out \<longrightarrow> length (nd_arrays s2) \<le> data out \<and> data out < length (nd_arrays s2')"
    by (simp_all add: grows_def)
next
  assume "process ext cself cube h = (r3, cube', cself', h')"
  note w = process_writes [OF this]
  from w show "\<forall>a < length (data_arrays h). data_arrays h' ! a = data_arrays h ! a"
    by (simp add: grows_def)
  from w show "cube' = cube\<lparr>ndata := length (data_arrays h)\<rparr>" by blast
  from w show m: "data_arrays h' ! ndata cube' = masked_invalid (data_arrays h ! ndata cube)" by blast
  show "(data_arrays h' ! ndata cube' = data_arrays h ! ndata cube)
          = (\<forall>sl \<in> set (slices3d (data_arrays h ! ndata cube)). \<forall>row \<in> set sl. \<forall>cell \<in> set row.
               snd cell \<or> np_isfinite (fst cell))"
    unfolding m by (rule masked_invalid_same)
  from w show "\<forall>out. r3 = Inr out \<longrightarrow> length (data_arrays h) < ndata out \<and> ndata out < length (data_arrays h')"
    by blast
  from w show "\<forall>a < length (weight_arrays h). (\<forall>wc. weights cself = WeightsCube wc \<longrightarrow> ndata wc \<noteq> a)
           \<longrightarrow> weight_arrays h' ! a = weight_arrays h ! a"
    by blast
qed

theorem transforms_and_input_arrays_witness:
  "\<exists>r1 s1 r2 s2 r3 cube' self' h'.
     OccurrenceWithinVicinity_process metres_already with_land fillval_f4 (\<lambda>i j. 0) two_slices vicinity_store
       = (r1, s1)
     \<and> nd_arrays s1 ! 0 = nd_arrays vicinity_store ! 0
     \<and> ApplyNeighbourhoodProcessingWithAMask_process keep_where_masked_in two_slices band_mask mask_store
       = (r2, s2)
     \<and> nd_arrays s2 ! 0 = nd_arrays mask_store ! 0 \<and> nd_arrays s2 ! 1 = nd_arrays mask_store ! 1
     \<and> process keep_all collapse_zones nbhood_field example_store = (r3, cube', self', h')
     \<and> data_arrays h' ! 0 = data_arrays example_store ! 0
     \<and> ndata cube' = 1
     \<and> data_arrays h' ! 1 = masked_invalid (data_arrays example_store ! 0)"
proof -
  obtain r1 s1 where 1:
    "OccurrenceWithinVicinity_process metres_already with_land fillval_f4 (\<lambda>i j. 0) two_slices vicinity_store
       = (r1, s1)"
    by (cases "OccurrenceWithinVicinity_process metres_already with_land fillval_f4 (\<lambda>i j. 0) two_slices vicinity_store")
  obtain r2 s2 where 2:
    "ApplyNeighbourhoodProcessingWithAMask_process keep_where_masked_in two_slices band_mask mask_store
       = (r2, s2)"
    by (cases "ApplyNeighbourhoodProcessingWithAMask_process keep_where_masked_in two_slices band_mask mask_store")
  obtain r3 cube' self' h' where 3:
    "process keep_all collapse_zones nbhood_field example_store = (r3, cube', self', h')"
    by (cases "process keep_all collapse_zones nbhood_field example_store")
  have l: "(0::nat) < length (nd_arrays vicinity_store)" "(0::nat) < length (nd_arrays mask_store)"
    "(1::nat) < length (nd_arrays mask_store)" "(0::nat) < length (data_arrays example_store)"
    "length (data_arrays example_store) = 1" "ndata nbhood_field = 0"
    by (simp_all add: vicinity_store_def mask_store_def example_store_def nbhood_field_def)
  note t = transforms_and_input_arrays
    [of metres_already with_land fillval_f4 "\<lambda>i j. 0" two_slices vicinity_store r1 s1
        keep_where_masked_in two_slices band_mask mask_store r2 s2
        keep_all collapse_zones nbhood_field example_store r3 cube' self' h']
  from t 1 l have a: "nd_arrays s1 ! 0 = nd_arrays vicinity_store ! 0" by blast
  from t 2 l have b: "nd_arrays s2 ! 0 = nd_arrays mask_store ! 0" "nd_arrays s2 ! 1 = nd_arrays mask_store ! 1"
    by blast+
  from t 3 have c3: "(\<forall>a < length (data_arrays example_store). data_arrays h' ! a = data_arrays example_store ! a)"
    "cube' = nbhood_field\<lparr>ndata := length (data_arrays example_store)\<rparr>"
    "data_arrays h' ! ndata cube' = masked_invalid (data_arrays example_store ! ndata nbhood_field)"
    by blast+
  from c3 l have c: "data_arrays h' ! 0 = data_arrays example_store ! 0" "ndata cube' = 1"
    "data_arrays h' ! 1 = masked_invalid (data_arrays example_store ! 0)"
    by auto
  from 1 2 3 a b c show ?thesis by blast
qed

text \<open>
  C1 as it was stated fails for \<open>CollapseMaskedNeighbourhoodCoordinate.process\<close>: with a
  plugin that has no weights, the data of the input field of the example, which holds
  not-a-number cells, is not the same after the call.
\<close>

theorem input_field_unchanged_counterexample:
  "data_arrays (snd (snd (snd (process keep_all collapse_unweighted nbhood_field example_store))))
     ! ndata (fst (snd (process keep_all collapse_unweighted nbhood_field example_store)))
   \<noteq> data_arrays example_store ! ndata nbhood_field"
  by code_simp

end
